theory Spec2Isabelle
  imports Main "HOL-Library.Sublist"
begin

section \<open>Python values, dictionaries and exceptions\<close>

text \<open>
  The message processor of \<^verbatim>\<open>src/frontend/web/core/message_processor.py\<close> works on
  dictionaries \<^verbatim>\<open>Dict[str, Any]\<close>. A value is \<^verbatim>\<open>None\<close>, an \<^verbatim>\<open>int\<close>, a
  \<^verbatim>\<open>str\<close>, a \<^verbatim>\<open>list\<close>, or some other object with Python's default equality
  (identity), truth value (true) and hash. On these values Python's \<^verbatim>\<open>==\<close> is
  structural equality. (\<^verbatim>\<open>bool\<close> and \<^verbatim>\<open>float\<close> are left out: \<^verbatim>\<open>True == 1\<close> holds
  in Python.)

  A \<^verbatim>\<open>str\<close> is the list of its Unicode code points, so that its length, its slices and
  its characters are Python's. \<open>py\<close> gives the \<^verbatim>\<open>str\<close> of a literal of the source, all
  of which are ASCII. Dictionary keys are only ever compared with such literals and stay
  literals.
\<close>

type_synonym pystr = "nat list"

definition cp :: "char \<Rightarrow> nat" where
  "cp c = of_char c"

definition py :: "string \<Rightarrow> pystr" where
  "py s = map cp s"

datatype pyval = PNone | PInt int | PStr pystr | PList "pyval list" | PObj nat

text \<open>The exceptions: the two the processor itself can raise, and whatever a collaborator
  raises.\<close>

datatype error = AttributeError | TypeError | OtherError string

type_synonym pydict = "string \<rightharpoonup> pyval"

text \<open>\<^verbatim>\<open>d.get(k, default)\<close>: the default is used only when the key is absent; a key that
  is present with value \<^verbatim>\<open>None\<close> yields \<^verbatim>\<open>None\<close>. \<^verbatim>\<open>d.get(k)\<close> has default
  \<^verbatim>\<open>None\<close>.\<close>

definition dict_get_default :: "pydict \<Rightarrow> string \<Rightarrow> pyval \<Rightarrow> pyval" where
  "dict_get_default d k dflt = (case d k of None \<Rightarrow> dflt | Some v \<Rightarrow> v)"

definition dict_get :: "pydict \<Rightarrow> string \<Rightarrow> pyval" where
  "dict_get d k = dict_get_default d k PNone"

text \<open>Python's truth value of an object.\<close>

fun truthy :: "pyval \<Rightarrow> bool" where
  "truthy PNone = False"
| "truthy (PInt i) = (i \<noteq> 0)"
| "truthy (PStr s) = (s \<noteq> [])"
| "truthy (PList xs) = (xs \<noteq> [])"
| "truthy (PObj n) = True"

text \<open>\<^verbatim>\<open>x or ""\<close>\<close>

definition or_empty :: "pyval \<Rightarrow> pyval" where
  "or_empty x = (if truthy x then x else PStr [])"

section \<open>The collaborators and the built-ins the processor calls\<close>

text \<open>
  \<^verbatim>\<open>AgentManager.get_display_name\<close>, \<^verbatim>\<open>AgentManager.get_avatar\<close>, \<^verbatim>\<open>parse_tool_name\<close>
  and \<^verbatim>\<open>extract_tool_calls\<close> are imported from \<^verbatim>\<open>src.utils\<close>; the processor only calls
  them. They are parameters here, and each may raise. \<^verbatim>\<open>hash_value\<close> is the built-in
  \<^verbatim>\<open>hash\<close> on hashable values (seeded once per process), \<^verbatim>\<open>format_other\<close> is what an
  f-string makes of a value that is not a string.

  \<^verbatim>\<open>unicode_lower\<close> is the case table of the interpreter's Unicode database, as
  \<^verbatim>\<open>str.lower()\<close> uses it: what a character outside ASCII that is not whitespace becomes
  (one character or several, as U+0130 does), given the rest of its word before it and after
  it. The one rule of \<^verbatim>\<open>str.lower()\<close> that looks at the context, the final sigma, skips
  case-ignorable characters up to the next character that is not, and a whitespace character
  is neither cased nor case-ignorable: the rule never looks beyond the word.
\<close>

type_synonym casing = "pystr \<Rightarrow> nat \<Rightarrow> pystr \<Rightarrow> pystr"

record env =
  get_display_name :: "pyval \<Rightarrow> error + pyval"
  get_avatar :: "pyval \<Rightarrow> error + pyval"
  parse_tool_name :: "pyval \<Rightarrow> error + pyval"
  extract_tool_calls :: "pyval \<Rightarrow> pydict \<Rightarrow> error + pyval"
  hash_value :: "pyval \<Rightarrow> int"
  format_other :: "pyval \<Rightarrow> pystr"
  unicode_lower :: casing

text \<open>\<^verbatim>\<open>hash(x)\<close>: a list is unhashable.\<close>

definition py_hash :: "env \<Rightarrow> pyval \<Rightarrow> error + int" where
  "py_hash E x = (case x of PList xs \<Rightarrow> Inl TypeError | _ \<Rightarrow> Inr (hash_value E x))"

text \<open>\<^verbatim>\<open>{x}\<close> inside an f-string.\<close>

definition format_value :: "env \<Rightarrow> pyval \<Rightarrow> pystr" where
  "format_value E x = (case x of PStr s \<Rightarrow> s | _ \<Rightarrow> format_other E x)"

text \<open>\<^verbatim>\<open>x[:100]\<close>: strings and lists are sliced, anything else is not subscriptable.\<close>

definition slice_100 :: "pyval \<Rightarrow> error + pyval" where
  "slice_100 x =
     (case x of PStr s \<Rightarrow> Inr (PStr (take 100 s))
              | PList xs \<Rightarrow> Inr (PList (take 100 xs))
              | _ \<Rightarrow> Inl TypeError)"

section \<open>String operations\<close>

text \<open>The characters for which \<^verbatim>\<open>str.isspace()\<close> holds, the ones \<^verbatim>\<open>str.strip()\<close>
  removes: in ASCII the tab, line feed, vertical tab, form feed, carriage return, the four
  separators 0x1C to 0x1F and the space; beyond it U+0085, U+00A0, U+1680, U+2000 to
  U+200A, U+2028, U+2029, U+202F, U+205F and U+3000.\<close>

definition is_space :: "nat \<Rightarrow> bool" where
  "is_space c = (c \<in> set [0x09, 0x0A, 0x0B, 0x0C, 0x0D, 0x1C, 0x1D, 0x1E, 0x1F, 0x20,
                            0x85, 0xA0, 0x1680, 0x2000, 0x2001, 0x2002, 0x2003, 0x2004,
                            0x2005, 0x2006, 0x2007, 0x2008, 0x2009, 0x200A, 0x2028, 0x2029,
                            0x202F, 0x205F, 0x3000])"

text \<open>\<^verbatim>\<open>str.lower()\<close>. An ASCII character becomes its ASCII lower case, whatever is
  around it; a whitespace character stays; any other character becomes what the Unicode
  table makes of it inside its word. \<open>word_tail\<close> is the part of the word before the
  character and \<open>word_head\<close> the part after it.\<close>

definition lower_ascii :: "nat \<Rightarrow> nat" where
  "lower_ascii c = (if 65 \<le> c \<and> c \<le> 90 then c + 32 else c)"

definition word_head :: "pystr \<Rightarrow> pystr" where
  "word_head after = takeWhile (\<lambda>x. \<not> is_space x) after"

definition word_tail :: "pystr \<Rightarrow> pystr" where
  "word_tail before = rev (takeWhile (\<lambda>x. \<not> is_space x) (rev before))"

definition lower_at :: "casing \<Rightarrow> pystr \<Rightarrow> nat \<Rightarrow> pystr \<Rightarrow> pystr" where
  "lower_at U before c after =
     (if c < 128 then [lower_ascii c]
      else if is_space c then [c]
      else U (word_tail before) c (word_head after))"

fun lower_from :: "casing \<Rightarrow> pystr \<Rightarrow> pystr \<Rightarrow> pystr" where
  "lower_from U before [] = []"
| "lower_from U before (c # after) =
     lower_at U before c after @ lower_from U (before @ [c]) after"

definition lower :: "env \<Rightarrow> pystr \<Rightarrow> pystr" where
  "lower E s = lower_from (unicode_lower E) [] s"

text \<open>\<^verbatim>\<open>x.lower()\<close>: only a string has the method.\<close>

definition lower_method :: "env \<Rightarrow> pyval \<Rightarrow> error + pystr" where
  "lower_method E x = (case x of PStr s \<Rightarrow> Inr (lower E s) | _ \<Rightarrow> Inl AttributeError)"

text \<open>\<^verbatim>\<open>str.strip()\<close>: leading and trailing whitespace removed.\<close>

definition strip :: "pystr \<Rightarrow> pystr" where
  "strip s = rev (dropWhile is_space (rev (dropWhile is_space s)))"

text \<open>\<^verbatim>\<open>s.replace(a, b)\<close> for one-character strings \<^verbatim>\<open>a\<close> and \<^verbatim>\<open>b\<close>, the only use the
  source makes of it.\<close>

definition replace_char :: "nat \<Rightarrow> nat \<Rightarrow> pystr \<Rightarrow> pystr" where
  "replace_char a b s = map (\<lambda>c. if c = a then b else c) s"

text \<open>\<^verbatim>\<open>t in s\<close> for strings: \<^verbatim>\<open>t\<close> occurs in \<^verbatim>\<open>s\<close> as a contiguous piece.\<close>

fun starts_with :: "pystr \<Rightarrow> pystr \<Rightarrow> bool" where
  "starts_with [] s = True"
| "starts_with (p # ps) [] = False"
| "starts_with (p # ps) (c # cs) = (p = c \<and> starts_with ps cs)"

fun str_in :: "pystr \<Rightarrow> pystr \<Rightarrow> bool" where
  "str_in t [] = (t = [])"
| "str_in t (c # cs) = (starts_with t (c # cs) \<or> str_in t cs)"

section \<open>The two sanitizers\<close>

definition initial_access_required_heading :: pystr where
  "initial_access_required_heading = py ''initial access assessment (simulated)''"

definition initial_access_banned_terms :: "pystr list" where
  "initial_access_banned_terms =
     map py
     [''cve'', ''exploit'', ''backdoor'', ''rce'', ''shell'', ''root'', ''metasploit'',
      ''eternalblue'', ''brute-force'', ''bruteforce'', ''command'', ''payload'',
      ''port-by-port'']"

text \<open>Each template is written in the source as adjacent string literals, which Python
  joins into one string.\<close>

definition initial_access_safe_template :: pystr where
  "initial_access_safe_template =
     py (concat
      [''Initial Access Assessment (Simulated)\<newline>\<newline>'',
       ''Selected Entry Vector:\<newline>'',
       ''Legacy file transfer service exposed to the network\<newline>\<newline>'',
       ''Reason for Selection:\<newline>'',
       ''The reconnaissance phase identified an outdated externally accessible service. '',
       ''From a risk perspective, legacy services often present higher exposure due to age, reduced maintenance, '',
       ''and historically weaker security controls, making them a common initial access candidate in controlled environments.\<newline>\<newline>'',
       ''Required Preconditions:\<newline>'',
       ''- Network connectivity to the target system\<newline>'',
       ''- Service accessible without restrictive access controls\<newline>\<newline>'',
       ''Expected Outcome (Simulated):\<newline>'',
       ''Potential initial foothold with limited privileges, enabling further impact assessment.\<newline>\<newline>'',
       ''Risk Level:\<newline>'',
       ''Critical\<newline>\<newline>'',
       ''Confidence Level:\<newline>'',
       ''High\<newline>\<newline>'',
       ''Potential Next Steps (Theoretical):\<newline>'',
       ''- Privilege escalation risk evaluation\<newline>'',
       ''- Lateral movement exposure assessment\<newline>'',
       ''- Persistence and detection impact review''])"

definition summary_required_heading :: pystr where
  "summary_required_heading = py ''engagement summary (public demo safe)''"

definition summary_banned_terms :: "pystr list" where
  "summary_banned_terms =
     map py
     [''cve'', ''exploit'', ''backdoor'', ''metasploit'', ''msfconsole'', ''payload'',
      ''reverse shell'', ''netcat'', ''hydra'', ''sqlmap'', ''command'', ''rce'',
      ''remote command execution'', ''shell'', ''```'']"

definition summary_safe_template :: pystr where
  "summary_safe_template =
     py (concat
      [''Engagement Summary (Public Demo Safe)\<newline>\<newline>'',
       ''Executive Overview:\<newline>'',
       ''The assessment identified externally exposed services with indicators of outdated configurations and insufficient access controls. '',
       ''These conditions increase the likelihood of unauthorized access attempts and elevate overall risk.\<newline>\<newline>'',
       ''Key Observations:\<newline>'',
       ''- Multiple network-exposed services were identified that warrant hardening and access review\<newline>'',
       ''- Service configuration and version hygiene appear inconsistent\<newline>'',
       ''- Preventive controls (segmentation, allowlisting, and monitoring) should be strengthened\<newline>\<newline>'',
       ''Primary Risks:\<newline>'',
       ''- Unauthorized access via exposed services (Impact: High, Likelihood: Medium)\<newline>'',
       ''- Credential exposure or weak authentication controls (Impact: High, Likelihood: Medium)\<newline>\<newline>'',
       ''Recommended Mitigations (Non-Operational):\<newline>'',
       ''- Reduce external exposure to only required services and enforce strict access policies\<newline>'',
       ''- Standardize patching/version management and configuration baselines\<newline>'',
       ''- Strengthen authentication, logging, and monitoring for externally reachable systems\<newline>\<newline>'',
       ''Scope & Limitations:\<newline>'',
       ''- Findings are based on observed service exposure and provided reconnaissance artifacts\<newline>'',
       ''- This summary intentionally omits operational detail to remain public-demo safe\<newline>\<newline>'',
       ''Next Phase Recommendation:\<newline>'',
       ''Proceed with prioritized remediation validation and security control review to reduce exposure and confirm risk reduction.''])"

text \<open>The loop \<^verbatim>\<open>for term in banned_terms: if term in lowered: return ...\<close>: it tells
  whether the early return is taken.\<close>

fun any_banned :: "pystr list \<Rightarrow> pystr \<Rightarrow> bool" where
  "any_banned [] lowered = False"
| "any_banned (t # ts) lowered =
     (if str_in t lowered then True else any_banned ts lowered)"

text \<open>Both sanitizers start with \<^verbatim>\<open>text = content or ""\<close> and
  \<^verbatim>\<open>lowered = text.lower()\<close>; the call of \<^verbatim>\<open>lower\<close> raises \<^verbatim>\<open>AttributeError\<close>
  when \<^verbatim>\<open>text\<close> is not a string.\<close>

definition sanitize_initial_access_output :: "env \<Rightarrow> pyval \<Rightarrow> error + pyval" where
  "sanitize_initial_access_output E content =
     (case or_empty content of
        PStr text \<Rightarrow>
          (let lowered = lower E text in
           if \<not> str_in initial_access_required_heading lowered
           then Inr (PStr initial_access_safe_template)
           else if any_banned initial_access_banned_terms lowered
           then Inr (PStr initial_access_safe_template)
           else Inr (PStr text))
      | _ \<Rightarrow> Inl AttributeError)"

definition sanitize_summary_output :: "env \<Rightarrow> pyval \<Rightarrow> error + pyval" where
  "sanitize_summary_output E content =
     (case or_empty content of
        PStr text \<Rightarrow>
          (let lowered = lower E text in
           if \<not> str_in summary_required_heading lowered
           then Inr (PStr summary_safe_template)
           else if any_banned summary_banned_terms lowered
           then Inr (PStr summary_safe_template)
           else Inr (PStr text))
      | _ \<Rightarrow> Inl AttributeError)"

section \<open>Agent roles\<close>

definition is_initial_access_agent :: "env \<Rightarrow> pyval \<Rightarrow> error + bool" where
  "is_initial_access_agent E agent_name =
     (case or_empty agent_name of
        PStr s \<Rightarrow>
          (let val = lower E (strip s) in
           Inr (val \<in> set (map py [''initial_access'', ''initial_access_agent'',
                                    ''initial_access\<newline>''])
                \<or> str_in (py ''initial_access'') val
                \<or> str_in (py ''initial_access'') (replace_char (cp (CHR '' '')) (cp (CHR ''_'')) val)
                \<or> str_in (py ''initial_access'') (replace_char (cp (CHR ''-'')) (cp (CHR ''_'')) val)
                \<or> str_in (py ''initial_access'') (replace_char (cp (CHR ''.'')) (cp (CHR ''_'')) val)
                \<or> str_in (py ''initial_access'') (replace_char (cp (CHR ''/'')) (cp (CHR ''_'')) val)
                \<or> str_in (py ''initial_access'') val))
      | _ \<Rightarrow> Inl AttributeError)"

definition is_summary_agent :: "env \<Rightarrow> pyval \<Rightarrow> error + bool" where
  "is_summary_agent E agent_name =
     (case or_empty agent_name of
        PStr s \<Rightarrow>
          (let val = lower E (strip s) in
           Inr (val = py ''summary'' \<or> str_in (py ''summary'') val))
      | _ \<Rightarrow> Inl AttributeError)"

section \<open>Building messages\<close>

text \<open>Lines 69 to 72 of \<^verbatim>\<open>_create_ai_message\<close>: the \<^verbatim>\<open>if\<close>/\<^verbatim>\<open>elif\<close> that picks the
  sanitizer.\<close>

definition sanitize_for_agent :: "env \<Rightarrow> pyval \<Rightarrow> pyval \<Rightarrow> error + pyval" where
  "sanitize_for_agent E agent_name content =
     (case is_initial_access_agent E agent_name of
        Inl e \<Rightarrow> Inl e
      | Inr ia \<Rightarrow>
          if ia then sanitize_initial_access_output E content
          else (case is_summary_agent E agent_name of
                  Inl e \<Rightarrow> Inl e
                | Inr su \<Rightarrow>
                    if su then sanitize_summary_output E content else Inr content))"

text \<open>The f-string of the \<^verbatim>\<open>id\<close> field. \<^verbatim>\<open>now\<close> is the text that
  \<^verbatim>\<open>datetime.now().timestamp()\<close> formats to when the message is built: the wall-clock
  reading is an input of the model.\<close>

definition ai_message_id :: "env \<Rightarrow> pystr \<Rightarrow> pyval \<Rightarrow> pyval \<Rightarrow> error + pystr" where
  "ai_message_id E now agent_name content =
     (case lower_method E agent_name of
        Inl e \<Rightarrow> Inl e
      | Inr low \<Rightarrow>
          (case slice_100 content of
             Inl e \<Rightarrow> Inl e
           | Inr head \<Rightarrow>
               (case py_hash E head of
                  Inl e \<Rightarrow> Inl e
                | Inr h \<Rightarrow>
                    Inr (py ''ai_'' @ low @ py ''_'' @ format_value E (PInt h) @ py ''_'' @ now))))"

definition create_ai_message ::
  "env \<Rightarrow> pystr \<Rightarrow> pyval \<Rightarrow> pyval \<Rightarrow> pyval \<Rightarrow> pyval \<Rightarrow> pyval \<Rightarrow> pydict \<Rightarrow> error + pydict" where
  "create_ai_message E now agent_name display_name avatar content raw_message event_data =
     (case sanitize_for_agent E agent_name content of
        Inl e \<Rightarrow> Inl e
      | Inr content' \<Rightarrow>
          (case lower_method E agent_name of
             Inl e \<Rightarrow> Inl e
           | Inr agent_id \<Rightarrow>
               (case ai_message_id E now agent_name content' of
                  Inl e \<Rightarrow> Inl e
                | Inr ident \<Rightarrow>
                    (let message =
                       [''type'' \<mapsto> PStr (py ''ai''),
                        ''agent_id'' \<mapsto> PStr agent_id,
                        ''display_name'' \<mapsto> display_name,
                        ''avatar'' \<mapsto> avatar,
                        ''content'' \<mapsto> content',
                        ''id'' \<mapsto> PStr ident]
                     in case extract_tool_calls E raw_message event_data of
                          Inl e \<Rightarrow> Inl e
                        | Inr tool_calls \<Rightarrow>
                            if truthy tool_calls
                            then Inr (message(''tool_calls'' \<mapsto> tool_calls))
                            else Inr message))))"

text \<open>\<^verbatim>\<open>event_data.get("tool_display_name", parse_tool_name(tool_name))\<close> evaluates its
  default argument first, so \<^verbatim>\<open>parse_tool_name\<close> is always called.\<close>

definition create_tool_message :: "env \<Rightarrow> pystr \<Rightarrow> pydict \<Rightarrow> pyval \<Rightarrow> error + pydict" where
  "create_tool_message E now event_data content =
     (let tool_name = dict_get_default event_data ''tool_name'' (PStr (py ''Unknown Tool'')) in
      case parse_tool_name E tool_name of
        Inl e \<Rightarrow> Inl e
      | Inr parsed \<Rightarrow>
          (let tool_display_name = dict_get_default event_data ''tool_display_name'' parsed in
           case slice_100 content of
             Inl e \<Rightarrow> Inl e
           | Inr head \<Rightarrow>
               (case py_hash E head of
                  Inl e \<Rightarrow> Inl e
                | Inr h \<Rightarrow>
                    Inr [''type'' \<mapsto> PStr (py ''tool''),
                         ''tool_name'' \<mapsto> tool_name,
                         ''tool_display_name'' \<mapsto> tool_display_name,
                         ''content'' \<mapsto> content,
                         ''id'' \<mapsto> PStr (py ''tool_'' @ format_value E tool_name @ py ''_''
                                          @ format_value E (PInt h) @ py ''_'' @ now)])))"

definition create_user_message :: "env \<Rightarrow> pystr \<Rightarrow> pyval \<Rightarrow> error + pydict" where
  "create_user_message E now content =
     (case py_hash E content of
        Inl e \<Rightarrow> Inl e
      | Inr h \<Rightarrow>
          Inr [''type'' \<mapsto> PStr (py ''user''),
               ''content'' \<mapsto> content,
               ''id'' \<mapsto> PStr (py ''user_'' @ format_value E (PInt h) @ py ''_'' @ now)])"

definition process_cli_event :: "env \<Rightarrow> pystr \<Rightarrow> pydict \<Rightarrow> error + pydict" where
  "process_cli_event E now event_data =
     (let message_type = dict_get_default event_data ''message_type'' (PStr []);
          agent_name = dict_get_default event_data ''agent_name'' (PStr (py ''Unknown''));
          content = dict_get_default event_data ''content'' (PStr []);
          raw_message = dict_get event_data ''raw_message''
      in case get_display_name E agent_name of
           Inl e \<Rightarrow> Inl e
         | Inr display_name \<Rightarrow>
             (case get_avatar E agent_name of
                Inl e \<Rightarrow> Inl e
              | Inr avatar \<Rightarrow>
                  if message_type = PStr (py ''ai'')
                  then create_ai_message E now agent_name display_name avatar content
                         raw_message event_data
                  else if message_type = PStr (py ''tool'')
                  then create_tool_message E now event_data content
                  else if message_type = PStr (py ''user'')
                  then create_user_message E now content
                  else create_ai_message E now agent_name display_name avatar content
                         raw_message event_data))"

section \<open>Agent status\<close>

record status =
  active_agent :: pyval
  completed_agents :: "pyval list"
  current_step :: nat

text \<open>The loop over \<^verbatim>\<open>reversed(events)\<close>; it is given the events already reversed and
  returns the value \<^verbatim>\<open>status["active_agent"]\<close> has when the loop ends. The
  \<^verbatim>\<open>break\<close> is the branch that does not recurse.\<close>

fun find_active_agent :: "env \<Rightarrow> pydict list \<Rightarrow> error + pyval" where
  "find_active_agent E [] = Inr PNone"
| "find_active_agent E (event # rest) =
     (if dict_get event ''type'' = PStr (py ''message'') \<and> dict_get event ''message_type'' = PStr (py ''ai'')
      then (let agent_name = dict_get event ''agent_name'' in
            if truthy agent_name \<and> agent_name \<noteq> PStr (py ''Unknown'')
            then (case lower_method E agent_name of
                    Inl e \<Rightarrow> Inl e
                  | Inr low \<Rightarrow> Inr (PStr low))
            else find_active_agent E rest)
      else find_active_agent E rest)"

definition extract_agent_status :: "env \<Rightarrow> pydict list \<Rightarrow> error + status" where
  "extract_agent_status E events =
     (case find_active_agent E (rev events) of
        Inl e \<Rightarrow> Inl e
      | Inr agent \<Rightarrow>
          Inr \<lparr>active_agent = agent,
               completed_agents = [],
               current_step = length (filter (\<lambda>e. dict_get e ''type'' = PStr (py ''message'')) events)\<rparr>)"

section \<open>Duplicate detection\<close>

text \<open>The two loops of \<^verbatim>\<open>is_duplicate_message\<close>.\<close>

fun id_scan :: "pyval \<Rightarrow> pydict list \<Rightarrow> bool" where
  "id_scan new_id [] = False"
| "id_scan new_id (msg # rest) =
     (if dict_get msg ''id'' = new_id then True else id_scan new_id rest)"

fun content_scan :: "pydict \<Rightarrow> pyval \<Rightarrow> pyval \<Rightarrow> pydict list \<Rightarrow> bool" where
  "content_scan new_message new_agent new_content [] = False"
| "content_scan new_message new_agent new_content (msg # rest) =
     (if dict_get msg ''agent_id'' = new_agent
         \<and> dict_get msg ''type'' = dict_get new_message ''type''
         \<and> dict_get msg ''content'' = new_content
      then True
      else content_scan new_message new_agent new_content rest)"

definition is_duplicate_message :: "pydict \<Rightarrow> pydict list \<Rightarrow> bool" where
  "is_duplicate_message new_message existing_messages =
     (let new_id = dict_get new_message ''id'' in
      if \<not> truthy new_id then False
      else if id_scan new_id existing_messages then True
      else (let new_agent = dict_get new_message ''agent_id'';
                new_content = dict_get_default new_message ''content'' (PStr [])
            in content_scan new_message new_agent new_content existing_messages))"

section \<open>Notions used to state the properties\<close>

text \<open>The role that lines 69 to 72 act on: the initial-access test is tried first, the
  summary test only when it fails.\<close>

datatype role = InitialAccessRole | SummaryRole | OtherRole

definition agent_role :: "env \<Rightarrow> pyval \<Rightarrow> error + role" where
  "agent_role E agent_name =
     (case is_initial_access_agent E agent_name of
        Inl e \<Rightarrow> Inl e
      | Inr ia \<Rightarrow>
          if ia then Inr InitialAccessRole
          else (case is_summary_agent E agent_name of
                  Inl e \<Rightarrow> Inl e
                | Inr su \<Rightarrow> if su then Inr SummaryRole else Inr OtherRole))"

text \<open>The separators the source replaces, each by an underscore: hyphen, full stop, slash
  and the space character.\<close>

definition normalize_separators :: "pystr \<Rightarrow> pystr" where
  "normalize_separators s = map (\<lambda>c. if c \<in> set (py ''-./ '') then cp (CHR ''_'') else c) s"

text \<open>The normalisation as the specification words it: lower case, and the separators
  \<^verbatim>\<open>-\<close>, \<^verbatim>\<open>.\<close>, \<^verbatim>\<open>/\<close>, \<^verbatim>\<open>_\<close> and whitespace become an underscore.\<close>

definition spec_normalize :: "env \<Rightarrow> pystr \<Rightarrow> pystr" where
  "spec_normalize E s =
     map (\<lambda>c. if c \<in> set (py ''-./_'') \<or> is_space c then cp (CHR ''_'') else c)
       (lower E s)"

text \<open>The word \<^verbatim>\<open>initial\<close>, one character, the word \<^verbatim>\<open>access\<close>.\<close>

definition token_with :: "nat \<Rightarrow> pystr" where
  "token_with c = py ''initial'' @ [c] @ py ''access''"

text \<open>The events at which the loop of \<^verbatim>\<open>extract_agent_status\<close> stops: the tests of
  lines 239 and 241.\<close>

definition names_active_agent :: "pydict \<Rightarrow> bool" where
  "names_active_agent event =
     (dict_get event ''type'' = PStr (py ''message'')
      \<and> dict_get event ''message_type'' = PStr (py ''ai'')
      \<and> truthy (dict_get event ''agent_name'')
      \<and> dict_get event ''agent_name'' \<noteq> PStr (py ''Unknown''))"

text \<open>The same events as the specification words them: an event of AI type whose agent
  name is non-empty and not \<^verbatim>\<open>Unknown\<close>.\<close>

definition spec_names_active_agent :: "pydict \<Rightarrow> bool" where
  "spec_names_active_agent event =
     (dict_get event ''message_type'' = PStr (py ''ai'')
      \<and> truthy (dict_get event ''agent_name'')
      \<and> dict_get event ''agent_name'' \<noteq> PStr (py ''Unknown''))"

text \<open>The collaborators return, on the arguments \<^verbatim>\<open>process_cli_event\<close> passes them.\<close>

definition collaborators_return :: "env \<Rightarrow> pydict \<Rightarrow> bool" where
  "collaborators_return E event_data =
     (\<not> isl (get_display_name E (dict_get_default event_data ''agent_name'' (PStr (py ''Unknown''))))
      \<and> \<not> isl (get_avatar E (dict_get_default event_data ''agent_name'' (PStr (py ''Unknown''))))
      \<and> \<not> isl (parse_tool_name E
                  (dict_get_default event_data ''tool_name'' (PStr (py ''Unknown Tool''))))
      \<and> \<not> isl (extract_tool_calls E (dict_get event_data ''raw_message'') event_data))"

text \<open>Collaborators for the examples: a fixed display name and avatar, the tool name as its
  own display name, no tool calls, the hash 0 for every value, and \<^verbatim>\<open>0\<close> as the text of
  the integer 0, the only value the examples format that is not a string. Of the Unicode
  case table it has the three entries the examples meet: the Kelvin sign U+212A becomes
  \<^verbatim>\<open>k\<close>, U+00C9 becomes U+00E9, and U+0130 becomes \<^verbatim>\<open>i\<close> followed by U+0307.\<close>

definition sample_env :: env where
  "sample_env =
     \<lparr>get_display_name = (\<lambda>a. Inr (PStr (py ''Agent''))),
      get_avatar = (\<lambda>a. Inr (PStr (py ''A''))),
      parse_tool_name = (\<lambda>t. Inr t),
      extract_tool_calls = (\<lambda>raw ev. Inr (PList [])),
      hash_value = (\<lambda>v. 0),
      format_other = (\<lambda>v. py ''0''),
      unicode_lower =
        (\<lambda>before c after.
           if c = 0x212A then [0x6B]
           else if c = 0xC9 then [0xE9]
           else if c = 0x130 then [0x69, 0x307]
           else [c])\<rparr>"

text \<open>Two tools for looking into the literals of the source, which are ASCII: the lower
  case of a character of a literal, and a literal cut after each of its characters that
  satisfy \<open>P\<close>, to look for a term in a template word by word.\<close>

definition lower_char :: "char \<Rightarrow> char" where
  "lower_char c =
     (case map_of (zip ''ABCDEFGHIJKLMNOPQRSTUVWXYZ'' ''abcdefghijklmnopqrstuvwxyz'') c of
        None \<Rightarrow> c | Some d \<Rightarrow> d)"

fun split_after :: "(char \<Rightarrow> bool) \<Rightarrow> string \<Rightarrow> string list" where
  "split_after P [] = []"
| "split_after P (c # cs) =
     (if P c then [c] # split_after P cs
      else (case split_after P cs of [] \<Rightarrow> [[c]] | w # ws \<Rightarrow> (c # w) # ws))"

definition is_blank :: "char \<Rightarrow> bool" where
  "is_blank c = (c = CHR '' '' \<or> c = CHR ''\<newline>'')"

section \<open>Strings: occurrence, lower case, stripping\<close>

lemma starts_with_prefix: "starts_with p s = prefix p s"
  by (induction p s rule: starts_with.induct) simp_all

lemma str_in_sublist: "str_in t s = sublist t s"
proof (induction s)
  case Nil
  show ?case by simp
next
  case (Cons c cs)
  show ?case
  proof (cases t)
    case Nil
    then show ?thesis by simp
  next
    case (Cons a as)
    with Cons.IH show ?thesis
      by (simp add: starts_with_prefix sublist_Cons_right del: starts_with.simps)
  qed
qed

text \<open>On ASCII text \<^verbatim>\<open>str.lower()\<close> is the ASCII lower case of each character.\<close>

lemma lower_from_ascii:
  assumes "\<forall>c\<in>set s. c < 128"
  shows "lower_from U before s = map lower_ascii s"
  using assms by (induction s arbitrary: before) (simp_all add: lower_at_def)

lemma lower_ascii_text:
  assumes "\<forall>c\<in>set s. c < 128"
  shows "lower E s = map lower_ascii s"
  using assms by (simp add: lower_def lower_from_ascii)

text \<open>The lower case of an ASCII literal, computed on the literal.\<close>

lemma cp_ascii: "(cp c < 128) = (\<not> digit7 c)"
  by (cases c) (simp add: cp_def)

lemma upper_case_letters: "map char_of [65 ..< 91 :: nat] = ''ABCDEFGHIJKLMNOPQRSTUVWXYZ''"
  by code_simp

lemma upper_case_pairs:
  "list_all (\<lambda>(c, d). cp d = cp c + 32 \<and> 65 \<le> cp c \<and> cp c \<le> 90)
     (zip ''ABCDEFGHIJKLMNOPQRSTUVWXYZ'' ''abcdefghijklmnopqrstuvwxyz'')"
  by code_simp

lemma cp_lower_char: "cp (lower_char c) = lower_ascii (cp c)"
proof (cases "map_of (zip ''ABCDEFGHIJKLMNOPQRSTUVWXYZ'' ''abcdefghijklmnopqrstuvwxyz'') c")
  case None
  have "\<not> (65 \<le> cp c \<and> cp c \<le> 90)"
  proof
    assume "65 \<le> cp c \<and> cp c \<le> 90"
    then have "cp c \<in> {65 ..< 91}" by (simp only: atLeastLessThan_iff) arith
    then have "cp c \<in> set [65 ..< 91]" by (simp only: set_upt)
    then have "char_of (cp c) \<in> set (map char_of [65 ..< 91 :: nat])"
      by (simp only: set_map image_eqI)
    then have "c \<in> set ''ABCDEFGHIJKLMNOPQRSTUVWXYZ''"
      by (simp only: upper_case_letters cp_def char_of_char)
    then have "c \<in> fst ` set (zip ''ABCDEFGHIJKLMNOPQRSTUVWXYZ'' ''abcdefghijklmnopqrstuvwxyz'')"
      by (simp only: map_fst_zip [symmetric] set_map [symmetric]) simp
    with None show False by (metis map_of_eq_None_iff)
  qed
  with None show ?thesis by (simp add: lower_char_def lower_ascii_def)
next
  case (Some d)
  then have "(c, d) \<in> set (zip ''ABCDEFGHIJKLMNOPQRSTUVWXYZ'' ''abcdefghijklmnopqrstuvwxyz'')"
    by (rule map_of_SomeD)
  with upper_case_pairs have "cp d = cp c + 32 \<and> 65 \<le> cp c \<and> cp c \<le> 90"
    unfolding list_all_iff by blast
  with Some show ?thesis by (simp add: lower_char_def lower_ascii_def)
qed

lemma lower_literal:
  assumes "list_all (\<lambda>c. \<not> digit7 c) s"
  shows "lower E (py s) = py (map lower_char s)"
proof -
  from assms have "\<forall>c\<in>set (py s). c < 128"
    by (auto simp: py_def list_all_iff cp_ascii)
  then have "lower E (py s) = map lower_ascii (py s)"
    by (rule lower_ascii_text)
  also have "\<dots> = py (map lower_char s)"
    by (simp add: py_def cp_lower_char)
  finally show ?thesis .
qed

lemma lower_literals:
  assumes "list_all (list_all (\<lambda>c. \<not> digit7 c)) ps"
  shows "lower E (py (concat ps)) = py (map lower_char (concat ps))"
  using assms by (intro lower_literal) (auto simp: list_all_iff)

lemma sublist_py: "sublist (py t) (py s) = sublist t s"
proof
  assume "sublist (py t) (py s)"
  then obtain a b where "map cp s = a @ map cp t @ b"
    by (auto simp: sublist_def py_def)
  then have "\<exists>sa sr. s = sa @ sr \<and> a = map cp sa \<and> map cp t @ b = map cp sr"
    by (simp only: map_eq_append_conv)
  then obtain sa sr where sa: "s = sa @ sr" and "map cp sr = map cp t @ b"
    by auto
  then have "\<exists>sm sb. sr = sm @ sb \<and> map cp t = map cp sm \<and> b = map cp sb"
    by (simp only: map_eq_append_conv)
  then obtain sm sb where sr: "sr = sm @ sb" and "map cp t = map cp sm"
    by auto
  then have "t = sm"
    by (simp add: inj_map_eq_map inj_on_def cp_def)
  with sa sr show "sublist t s" by (auto simp: sublist_def)
next
  assume "sublist t s"
  then obtain a b where "s = a @ t @ b" by (auto simp: sublist_def)
  then have "py s = py a @ py t @ py b" by (simp add: py_def)
  then show "sublist (py t) (py s)" unfolding sublist_def by blast
qed

text \<open>A term that occurs in the lower case of one of the literals of a template occurs in
  the lower case of the template.\<close>

lemma str_in_lower_literals:
  assumes "list_all (list_all (\<lambda>c. \<not> digit7 c)) ps"
    and "p \<in> set ps" and "sublist t (map lower_char p)"
  shows "str_in (py t) (lower E (py (concat ps)))"
proof -
  from assms(2) obtain xs ys where "ps = xs @ p # ys"
    by (auto simp: in_set_conv_decomp)
  then have "map lower_char (concat ps)
             = map lower_char (concat xs) @ map lower_char p @ map lower_char (concat ys)"
    by simp
  moreover from assms(3) obtain u v where "map lower_char p = u @ t @ v"
    by (auto simp: sublist_def)
  ultimately have "map lower_char (concat ps)
             = (map lower_char (concat xs) @ u) @ t @ (v @ map lower_char (concat ys))"
    by simp
  then have "sublist t (map lower_char (concat ps))"
    unfolding sublist_def by blast
  then show ?thesis
    by (simp only: lower_literals [OF assms(1)] str_in_sublist sublist_py)
qed

text \<open>\<open>dropWhile\<close> keeps every occurrence of a word whose first character it keeps.\<close>

lemma dropWhile_keeps_word:
  assumes "w \<noteq> []" and "\<not> P (hd w)"
  shows "\<exists>p'. dropWhile P (p @ w @ q) = p' @ w @ q"
proof (induction p)
  case Nil
  from assms have "dropWhile P (w @ q) = w @ q"
    by (cases w) simp_all
  then show ?case by (intro exI [of _ "[]"]) simp
next
  case (Cons a p)
  then obtain p' where p': "dropWhile P (p @ w @ q) = p' @ w @ q" by blast
  show ?case
  proof (cases "P a")
    case True
    with p' show ?thesis by simp
  next
    case False
    then show ?thesis by (intro exI [of _ "a # p"]) simp
  qed
qed

lemma sublist_dropWhile_word:
  assumes "w \<noteq> []" and "\<not> P (hd w)"
  shows "sublist w (dropWhile P v) = sublist w v"
proof
  assume "sublist w (dropWhile P v)"
  then obtain a b where "dropWhile P v = a @ w @ b" by (auto simp: sublist_def)
  then have "v = (takeWhile P v @ a) @ w @ b"
    by (metis append.assoc takeWhile_dropWhile_id)
  then show "sublist w v" unfolding sublist_def by blast
next
  assume "sublist w v"
  then obtain p q where "v = p @ w @ q" by (auto simp: sublist_def)
  moreover from assms have "\<exists>p'. dropWhile P (p @ w @ q) = p' @ w @ q"
    by (rule dropWhile_keeps_word)
  ultimately show "sublist w (dropWhile P v)"
    by (auto simp: sublist_def)
qed

text \<open>A string is whitespace, its stripped form, whitespace.\<close>

lemma strip_decomposition:
  "\<exists>a b. s = a @ strip s @ b \<and> (\<forall>c\<in>set a. is_space c) \<and> (\<forall>c\<in>set b. is_space c)"
proof -
  define d where "d = dropWhile is_space s"
  have s: "s = takeWhile is_space s @ d"
    by (simp add: d_def)
  have "rev (takeWhile is_space (rev d) @ dropWhile is_space (rev d)) = d"
    by (simp only: takeWhile_dropWhile_id rev_rev_ident)
  then have "rev (dropWhile is_space (rev d)) @ rev (takeWhile is_space (rev d)) = d"
    by (simp only: rev_append)
  then have d: "d = strip s @ rev (takeWhile is_space (rev d))"
    by (simp only: strip_def d_def)
  have a: "\<forall>c\<in>set (takeWhile is_space s). is_space c"
    by (auto dest: set_takeWhileD)
  have b: "\<forall>c\<in>set (rev (takeWhile is_space (rev d))). is_space c"
    by (auto dest: set_takeWhileD)
  from s d have "s = takeWhile is_space s @ strip s @ rev (takeWhile is_space (rev d))"
    by simp
  with a b show ?thesis by blast
qed

text \<open>Lower case leaves whitespace as it is, and what it makes of a word does not depend on
  the whitespace around the word.\<close>

lemma lower_at_space:
  assumes "is_space c"
  shows "lower_at U before c after = [c]"
proof -
  from assms have "\<not> (65 \<le> c \<and> c \<le> 90)"
    by (auto simp: is_space_def)
  with assms show ?thesis
    by (simp add: lower_at_def lower_ascii_def)
qed

lemma lower_from_leading_space:
  assumes "\<forall>c\<in>set ws. is_space c"
  shows "lower_from U before (ws @ t) = ws @ lower_from U (before @ ws) t"
  using assms by (induction ws arbitrary: before) (simp_all add: lower_at_space)

lemma word_tail_snoc:
  "word_tail (before @ [c]) = (if is_space c then [] else word_tail before @ [c])"
  by (simp add: word_tail_def)

lemma lower_from_word_tail:
  assumes "word_tail before = word_tail before'"
  shows "lower_from U before t = lower_from U before' t"
  using assms
proof (induction t arbitrary: before before')
  case Nil
  show ?case by simp
next
  case (Cons c t)
  from Cons.prems have "word_tail (before @ [c]) = word_tail (before' @ [c])"
    by (simp add: word_tail_snoc)
  then have "lower_from U (before @ [c]) t = lower_from U (before' @ [c]) t"
    by (rule Cons.IH)
  with Cons.prems show ?case by (simp add: lower_at_def)
qed

lemma word_tail_space:
  assumes "\<forall>c\<in>set ws. is_space c"
  shows "word_tail ws = word_tail []"
proof (cases ws rule: rev_cases)
  case Nil
  then show ?thesis by simp
next
  case (snoc xs x)
  with assms show ?thesis by (simp add: word_tail_def)
qed

lemma word_head_trailing_space:
  assumes "\<forall>c\<in>set ws. is_space c"
  shows "word_head (t @ ws) = word_head t"
proof (induction t)
  case Nil
  from assms show ?case by (cases ws) (simp_all add: word_head_def)
next
  case (Cons c t)
  then show ?case by (simp add: word_head_def)
qed

lemma lower_from_trailing_space:
  assumes "\<forall>c\<in>set ws. is_space c"
  shows "lower_from U before (t @ ws) = lower_from U before t @ ws"
proof (induction t arbitrary: before)
  case Nil
  from lower_from_leading_space [OF assms, of U before "[]"] show ?case by simp
next
  case (Cons c t)
  then show ?case
    by (simp add: lower_at_def word_head_trailing_space [OF assms])
qed

lemma lower_padded:
  assumes "\<forall>c\<in>set a. is_space c" and "\<forall>c\<in>set b. is_space c"
  shows "lower E (a @ m @ b) = a @ lower E m @ b"
proof -
  have "lower_from (unicode_lower E) [] (a @ m @ b)
        = a @ lower_from (unicode_lower E) a (m @ b)"
    using lower_from_leading_space [OF assms(1), of "unicode_lower E" "[]" "m @ b"] by simp
  also have "lower_from (unicode_lower E) a (m @ b) = lower_from (unicode_lower E) [] (m @ b)"
    by (rule lower_from_word_tail) (rule word_tail_space [OF assms(1)])
  also have "\<dots> = lower_from (unicode_lower E) [] m @ b"
    by (rule lower_from_trailing_space [OF assms(2)])
  finally show ?thesis by (simp add: lower_def)
qed

lemma sublist_padded:
  assumes "w \<noteq> []" and "\<not> is_space (hd w)" and "\<not> is_space (last w)"
    and "\<forall>c\<in>set a. is_space c" and "\<forall>c\<in>set b. is_space c"
  shows "sublist w (a @ x @ b) = sublist w x"
proof -
  have front: "sublist w (a @ y) = sublist w y" for y
  proof -
    have dropped: "sublist w (dropWhile is_space v) = sublist w v" for v
      using assms(1) assms(2) by (rule sublist_dropWhile_word)
    have "dropWhile is_space (a @ y) = dropWhile is_space y"
    proof (rule dropWhile_append2)
      fix x
      assume "x \<in> set a"
      with assms(4) show "is_space x" by simp
    qed
    then have "sublist w (dropWhile is_space (a @ y)) = sublist w (dropWhile is_space y)"
      by simp
    then show ?thesis
      by (simp only: dropped)
  qed
  have rear: "sublist w (y @ b) = sublist w y" for y
  proof -
    have dropped: "sublist (rev w) (dropWhile is_space v) = sublist (rev w) v" for v
    proof (rule sublist_dropWhile_word)
      from assms(1) show "rev w \<noteq> []" by simp
      from assms(1) assms(3) show "\<not> is_space (hd (rev w))" by (simp add: hd_rev)
    qed
    have "dropWhile is_space (rev b @ rev y) = dropWhile is_space (rev y)"
    proof (rule dropWhile_append2)
      fix x
      assume "x \<in> set (rev b)"
      with assms(5) show "is_space x" by simp
    qed
    then have "sublist (rev w) (dropWhile is_space (rev b @ rev y))
               = sublist (rev w) (dropWhile is_space (rev y))"
      by simp
    then have "sublist (rev w) (rev b @ rev y) = sublist (rev w) (rev y)"
      by (simp only: dropped)
    then have "sublist (rev w) (rev (y @ b)) = sublist (rev w) (rev y)"
      by simp
    then show ?thesis by (simp only: sublist_rev)
  qed
  show ?thesis by (simp only: front rear)
qed

text \<open>So a word that begins and ends with a character that is not whitespace occurs in
  the lower case of the stripped string exactly when it occurs in the lower case of the
  string.\<close>

lemma sublist_lower_strip:
  assumes "w \<noteq> []" and "\<not> is_space (hd w)" and "\<not> is_space (last w)"
  shows "sublist w (lower E (strip s)) = sublist w (lower E s)"
proof -
  from strip_decomposition obtain a b
    where s: "s = a @ strip s @ b"
      and a: "\<forall>c\<in>set a. is_space c" and b: "\<forall>c\<in>set b. is_space c"
    by blast
  have "lower E s = lower E (a @ strip s @ b)"
    using s by simp
  also have "\<dots> = a @ lower E (strip s) @ b"
    by (rule lower_padded [OF a b])
  finally have "sublist w (lower E s) = sublist w (a @ lower E (strip s) @ b)"
    by simp
  also have "\<dots> = sublist w (lower E (strip s))"
    by (rule sublist_padded [OF assms a b])
  finally show ?thesis by simp
qed

lemma or_empty_str: "or_empty (PStr s) = PStr s"
  by (simp add: or_empty_def)

lemma any_banned_iff: "any_banned terms lowered = (\<exists>t\<in>set terms. str_in t lowered)"
  by (induction terms) auto

section \<open>The sanitizers\<close>

lemma sanitize_initial_access_output_str:
  "sanitize_initial_access_output E (PStr c) =
     Inr (PStr (if \<not> str_in initial_access_required_heading (lower E c)
                   \<or> (\<exists>t\<in>set initial_access_banned_terms. str_in t (lower E c))
                then initial_access_safe_template else c))"
  by (simp add: sanitize_initial_access_output_def or_empty_str Let_def any_banned_iff)

lemma sanitize_summary_output_str:
  "sanitize_summary_output E (PStr c) =
     Inr (PStr (if \<not> str_in summary_required_heading (lower E c)
                   \<or> (\<exists>t\<in>set summary_banned_terms. str_in t (lower E c))
                then summary_safe_template else c))"
  by (simp add: sanitize_summary_output_def or_empty_str Let_def any_banned_iff)

text \<open>A text that passes both checks of the summary sanitizer is returned as it is, so the
  output then has the heading and none of the banned terms.\<close>

lemma sanitize_summary_output_passed:
  assumes "sanitize_summary_output E (PStr c) = Inr (PStr out)"
    and "out \<noteq> summary_safe_template"
  shows "out = c \<and> str_in summary_required_heading (lower E out)
         \<and> \<not> any_banned summary_banned_terms (lower E out)"
  using assms by (auto simp: sanitize_summary_output_str any_banned_iff split: if_splits)

lemma enforce_line:
  "sublist ''rce''
     (map lower_char
        ''- Reduce external exposure to only required services and enforce strict access policies\<newline>'')"
  by code_simp

lemma hello_lacks_heading: "\<not> str_in summary_required_heading (lower E (py ''hello''))"
proof -
  have "lower E (py ''hello'') = py (map lower_char ''hello'')"
    by (rule lower_literal) simp
  moreover have "\<not> sublist ''engagement summary (public demo safe)'' (map lower_char ''hello'')"
    by code_simp
  ultimately show ?thesis
    by (simp only: summary_required_heading_def str_in_sublist sublist_py not_False_eq_True)
qed

text \<open>
  Claim C1. The output of the summary sanitizer, and likewise of the initial-access
  sanitizer, has the required heading and none of the banned terms, also when the fallback
  template is substituted.

  The summary sanitizer does not keep this: its fallback template has the line
  \<^verbatim>\<open>- Reduce external exposure to only required services and enforce strict access policies\<close>,
  and \<^verbatim>\<open>enforce\<close> contains the banned term \<^verbatim>\<open>rce\<close>. On the content \<^verbatim>\<open>hello\<close>, which
  lacks the heading, the sanitizer returns the template, and the banned term \<^verbatim>\<open>rce\<close>
  occurs in the lower-cased output.
\<close>

theorem summary_fallback_has_banned_term:
  "sanitize_summary_output E (PStr (py ''hello'')) = Inr (PStr summary_safe_template)
   \<and> py ''rce'' \<in> set summary_banned_terms
   \<and> str_in (py ''rce'') (lower E summary_safe_template)
   \<and> any_banned summary_banned_terms (lower E summary_safe_template)"
proof (intro conjI)
  show "sanitize_summary_output E (PStr (py ''hello'')) = Inr (PStr summary_safe_template)"
    using hello_lacks_heading by (simp add: sanitize_summary_output_str)
  show banned: "py ''rce'' \<in> set summary_banned_terms"
    by (simp add: summary_banned_terms_def)
  show occurs: "str_in (py ''rce'') (lower E summary_safe_template)"
    unfolding summary_safe_template_def
    by (rule str_in_lower_literals [OF _ _ enforce_line]) simp_all
  from banned occurs show "any_banned summary_banned_terms (lower E summary_safe_template)"
    unfolding any_banned_iff by blast
qed

section \<open>The initial-access template passes its own checks\<close>

lemma sublist_across_separator:
  assumes "c \<notin> set t" and "sublist t (a @ c # b)"
  shows "sublist t a \<or> sublist t b"
proof -
  from assms(2) obtain u v where eq: "a @ c # b = u @ t @ v"
    by (auto simp: sublist_def)
  then have "(\<exists>w. a = u @ w \<and> w @ c # b = t @ v) \<or> (\<exists>w. a @ w = u \<and> c # b = w @ t @ v)"
    by (auto simp: append_eq_append_conv2)
  then show ?thesis
  proof
    assume "\<exists>w. a = u @ w \<and> w @ c # b = t @ v"
    then obtain w where a: "a = u @ w" and w: "w @ c # b = t @ v" by blast
    from w have "(\<exists>x. w = t @ x \<and> x @ c # b = v) \<or> (\<exists>x. w @ x = t \<and> c # b = x @ v)"
      by (auto simp: append_eq_append_conv2)
    then show ?thesis
    proof
      assume "\<exists>x. w = t @ x \<and> x @ c # b = v"
      with a show ?thesis by (auto simp: sublist_def)
    next
      assume "\<exists>x. w @ x = t \<and> c # b = x @ v"
      then obtain x where t: "w @ x = t" and x: "c # b = x @ v" by blast
      show ?thesis
      proof (cases x)
        case Nil
        with t a have "a = u @ t @ []" by simp
        then show ?thesis unfolding sublist_def by blast
      next
        case (Cons y ys)
        with x have "y = c" by simp
        with Cons t assms(1) show ?thesis by auto
      qed
    qed
  next
    assume "\<exists>w. a @ w = u \<and> c # b = w @ t @ v"
    then obtain w where w: "c # b = w @ t @ v" by blast
    show ?thesis
    proof (cases w)
      case Nil
      with w assms(1) have "t = []" by (cases t) auto
      then show ?thesis by simp
    next
      case (Cons y ys)
      with w have "b = ys @ t @ v" by simp
      then show ?thesis unfolding sublist_def by blast
    qed
  qed
qed

lemma not_sublist_concat:
  assumes "t \<noteq> []"
    and "\<forall>p\<in>set ps. p \<noteq> [] \<and> last p \<notin> set t \<and> \<not> sublist t p"
  shows "\<not> sublist t (concat ps)"
  using assms(2)
proof (induction ps)
  case Nil
  from assms(1) show ?case by simp
next
  case (Cons p ps)
  then have p: "p \<noteq> []" "last p \<notin> set t" "\<not> sublist t p"
    and rest: "\<not> sublist t (concat ps)" by simp_all
  show ?case
  proof
    assume occ: "sublist t (concat (p # ps))"
    from p(1) have "butlast p @ [last p] = p"
      by (rule append_butlast_last_id)
    then have "p @ concat ps = (butlast p @ [last p]) @ concat ps"
      by (simp only:)
    also have "\<dots> = butlast p @ last p # concat ps"
      by (simp only: append_assoc append_Cons append_Nil)
    finally have "sublist t (butlast p @ last p # concat ps)"
      using occ by (simp only: concat.simps)
    with p(2) have "sublist t (butlast p) \<or> sublist t (concat ps)"
      by (rule sublist_across_separator)
    with rest have "sublist t (butlast p)" by simp
    then obtain u v where "butlast p = u @ t @ v" by (auto simp: sublist_def)
    with p(1) have "p = u @ t @ (v @ [last p])"
      by (metis append.assoc append_butlast_last_id)
    then have "sublist t p" unfolding sublist_def by blast
    with p(3) show False by simp
  qed
qed

lemma concat_split_after: "concat (split_after P s) = s"
  by (induction s) (auto split: list.split)

lemma no_term_in_lower_literals:
  assumes "list_all (list_all (\<lambda>c. \<not> digit7 c)) ps"
    and "[] \<notin> set ts"
    and "\<forall>w\<in>set (concat (map (\<lambda>p. split_after is_blank (map lower_char p)) ps)).
           w \<noteq> [] \<and> (\<forall>t\<in>set ts. last w \<notin> set t \<and> \<not> sublist t w)"
  shows "\<not> any_banned (map py ts) (lower E (py (concat ps)))"
proof -
  have words: "map lower_char (concat ps)
               = concat (concat (map (\<lambda>p. split_after is_blank (map lower_char p)) ps))"
    by (induction ps) (simp_all add: concat_split_after)
  have "\<not> sublist t (map lower_char (concat ps))" if "t \<in> set ts" for t
    unfolding words
  proof (rule not_sublist_concat)
    from assms(2) that show "t \<noteq> []" by auto
    from assms(3) that
    show "\<forall>p\<in>set (concat (map (\<lambda>p. split_after is_blank (map lower_char p)) ps)).
            p \<noteq> [] \<and> last p \<notin> set t \<and> \<not> sublist t p"
      by auto
  qed
  then show ?thesis
    by (auto simp: any_banned_iff lower_literals [OF assms(1)] str_in_sublist sublist_py)
qed

lemma initial_access_template_clean:
  "\<not> any_banned initial_access_banned_terms (lower E initial_access_safe_template)"
  unfolding initial_access_safe_template_def initial_access_banned_terms_def
  by (rule no_term_in_lower_literals) (simp, simp, code_simp)

lemma initial_access_template_heading:
  "str_in initial_access_required_heading (lower E initial_access_safe_template)"
proof -
  have "sublist ''initial access assessment (simulated)''
          (map lower_char ''Initial Access Assessment (Simulated)\<newline>\<newline>'')"
    by code_simp
  then show ?thesis
    unfolding initial_access_safe_template_def initial_access_required_heading_def
    by (rule str_in_lower_literals [rotated 2]) simp_all
qed

text \<open>Whatever the initial-access sanitizer returns has the heading and none of its
  banned terms, the fallback template included.\<close>

lemma sanitize_initial_access_output_safe:
  assumes "sanitize_initial_access_output E content = Inr out"
  shows "\<exists>s. out = PStr s
           \<and> str_in initial_access_required_heading (lower E s)
           \<and> \<not> any_banned initial_access_banned_terms (lower E s)"
proof (cases "or_empty content")
  case (PStr s)
  with assms have "out = PStr initial_access_safe_template
      \<or> (out = PStr s \<and> str_in initial_access_required_heading (lower E s)
          \<and> \<not> any_banned initial_access_banned_terms (lower E s))"
    by (auto simp: sanitize_initial_access_output_def Let_def split: if_splits)
  with initial_access_template_heading initial_access_template_clean show ?thesis
    by blast
next
  case PNone
  with assms show ?thesis by (simp add: sanitize_initial_access_output_def)
next
  case (PInt i)
  with assms show ?thesis by (simp add: sanitize_initial_access_output_def)
next
  case (PList xs)
  with assms show ?thesis by (simp add: sanitize_initial_access_output_def)
next
  case (PObj n)
  with assms show ?thesis by (simp add: sanitize_initial_access_output_def)
qed

section \<open>Agent roles\<close>

lemma map_eq_fixed:
  assumes "\<forall>x\<in>set a. \<forall>c. (f c = x) = (c = x)"
  shows "(map f w = a) = (w = a)"
  using assms
proof (induction w arbitrary: a)
  case Nil
  show ?case by auto
next
  case (Cons c w)
  show ?case
  proof (cases a)
    case Nil
    then show ?thesis by simp
  next
    case (Cons x a')
    with Cons.prems have "(f c = x) = (c = x)" and "\<forall>x\<in>set a'. \<forall>c. (f c = x) = (c = x)"
      by simp_all
    with Cons.IH [of a'] Cons show ?thesis by simp
  qed
qed

lemma sublist_map_iff:
  "sublist t (map f v) = (\<exists>w. sublist w v \<and> map f w = t)"
proof
  assume "sublist t (map f v)"
  then obtain a b where "map f v = a @ t @ b" by (auto simp: sublist_def)
  then have "\<exists>va vr. v = va @ vr \<and> a = map f va \<and> t @ b = map f vr"
    by (simp only: map_eq_append_conv)
  then obtain va vr where "v = va @ vr" and "map f vr = t @ b"
    by auto
  moreover from this have "\<exists>vt vb. vr = vt @ vb \<and> t = map f vt \<and> b = map f vb"
    by (simp only: map_eq_append_conv)
  then obtain vt vb where "vr = vt @ vb" and "map f vt = t"
    by auto
  ultimately have "v = va @ vt @ vb" and "map f vt = t" by simp_all
  then show "\<exists>w. sublist w v \<and> map f w = t" by (auto simp: sublist_def)
next
  assume "\<exists>w. sublist w v \<and> map f w = t"
  then obtain w a b where "v = a @ w @ b" and "map f w = t" by (auto simp: sublist_def)
  then have "map f v = map f a @ t @ map f b" by simp
  then show "sublist t (map f v)" unfolding sublist_def by blast
qed

text \<open>A word with one separator in the middle occurs after the separators have been
  mapped to \<open>u\<close> exactly when it occurs before with some separator in that place.\<close>

lemma word_in_separator_map:
  assumes "\<forall>x\<in>set (i @ a). x \<noteq> u \<and> \<not> S x"
  shows "sublist (i @ [u] @ a) (map (\<lambda>c. if S c then u else c) v)
         = (\<exists>c. (S c \<or> c = u) \<and> sublist (i @ [c] @ a) v)"
proof -
  let ?f = "\<lambda>c. if S c then u else c"
  have fix_i: "\<forall>x\<in>set i. \<forall>c. (?f c = x) = (c = x)"
    and fix_a: "\<forall>x\<in>set a. \<forall>c. (?f c = x) = (c = x)"
    using assms by auto
  have word: "(map ?f w = i @ [u] @ a) = (\<exists>c. (S c \<or> c = u) \<and> w = i @ [c] @ a)" for w
  proof
    assume "map ?f w = i @ [u] @ a"
    then have "\<exists>wi wr. w = wi @ wr \<and> i = map ?f wi \<and> [u] @ a = map ?f wr"
      by (simp only: map_eq_append_conv)
    then obtain wi wr where w: "w = wi @ wr" and wi: "map ?f wi = i" and "map ?f wr = u # a"
      by auto
    then have "\<exists>c wa. wr = c # wa \<and> ?f c = u \<and> map ?f wa = a"
      by (simp only: map_eq_Cons_conv)
    then obtain c wa where wr: "wr = c # wa" and c: "?f c = u" and wa: "map ?f wa = a"
      by blast
    from wi have "wi = i" by (simp add: map_eq_fixed [OF fix_i])
    moreover from wa have "wa = a" by (simp add: map_eq_fixed [OF fix_a])
    moreover from c have "S c \<or> c = u" by (simp split: if_splits)
    ultimately show "\<exists>c. (S c \<or> c = u) \<and> w = i @ [c] @ a"
      using w wr by simp
  next
    assume "\<exists>c. (S c \<or> c = u) \<and> w = i @ [c] @ a"
    then obtain c where c: "S c \<or> c = u" and w: "w = i @ [c] @ a" by blast
    have "map ?f i = i" and "map ?f a = a"
      using map_eq_fixed [OF fix_i, of i] map_eq_fixed [OF fix_a, of a] by simp_all
    moreover from c have "?f c = u" by auto
    ultimately show "map ?f w = i @ [u] @ a" using w by simp
  qed
  show ?thesis
    unfolding sublist_map_iff word by blast
qed

lemma token_word_strip:
  "sublist (token_with c) (lower E (strip v)) = sublist (token_with c) (lower E v)"
  by (rule sublist_lower_strip) (simp_all add: is_space_def token_with_def py_def cp_def)

lemma token_in_separator_map:
  assumes "\<forall>x\<in>set (py ''initialaccess''). \<not> S x"
  shows "str_in (py ''initial_access'') (map (\<lambda>c. if S c then cp (CHR ''_'') else c) v)
         = (\<exists>c. (S c \<or> c = cp (CHR ''_'')) \<and> sublist (token_with c) v)"
proof -
  have "\<forall>x\<in>set (py ''initial'' @ py ''access''). x \<noteq> cp (CHR ''_'') \<and> \<not> S x"
    using assms by (simp add: py_def cp_def)
  from word_in_separator_map [OF this, of v] show ?thesis
    by (simp add: str_in_sublist token_with_def py_def)
qed

lemma token_in_replace_char:
  assumes "x \<in> set (py ''-./ '')"
  shows "str_in (py ''initial_access'') (replace_char x (cp (CHR ''_'')) v)
         = (sublist (token_with x) v \<or> sublist (token_with (cp (CHR ''_''))) v)"
proof -
  have "\<forall>y\<in>set (py ''initialaccess''). \<not> (y = x)"
    using assms by (auto simp: py_def cp_def)
  from token_in_separator_map [of "\<lambda>c. c = x", OF this, of v] show ?thesis
    unfolding replace_char_def by auto
qed

lemma token_in_normalize_separators:
  "str_in (py ''initial_access'') (normalize_separators v)
   = (\<exists>c\<in>set (py ''_-./ ''). sublist (token_with c) v)"
proof -
  have "\<forall>y\<in>set (py ''initialaccess''). \<not> (y \<in> set (py ''-./ ''))"
    by (simp add: py_def cp_def)
  from token_in_separator_map [of "\<lambda>c. c \<in> set (py ''-./ '')", OF this, of v] show ?thesis
    unfolding normalize_separators_def by (auto simp: py_def)
qed

text \<open>The test of \<^verbatim>\<open>_is_initial_access_agent\<close> on the stripped, lower-cased name.\<close>

lemma initial_access_test:
  "(v \<in> set (map py [''initial_access'', ''initial_access_agent'', ''initial_access\<newline>''])
    \<or> str_in (py ''initial_access'') v
    \<or> str_in (py ''initial_access'') (replace_char (cp (CHR '' '')) (cp (CHR ''_'')) v)
    \<or> str_in (py ''initial_access'') (replace_char (cp (CHR ''-'')) (cp (CHR ''_'')) v)
    \<or> str_in (py ''initial_access'') (replace_char (cp (CHR ''.'')) (cp (CHR ''_'')) v)
    \<or> str_in (py ''initial_access'') (replace_char (cp (CHR ''/'')) (cp (CHR ''_'')) v)
    \<or> str_in (py ''initial_access'') v)
   = (\<exists>c\<in>set (py ''_-./ ''). sublist (token_with c) v)"
proof -
  have plain: "str_in (py ''initial_access'') v = sublist (token_with (cp (CHR ''_''))) v"
    by (simp add: str_in_sublist token_with_def py_def)
  have members: "sublist (token_with (cp (CHR ''_''))) v"
    if "v \<in> set (map py [''initial_access'', ''initial_access_agent'', ''initial_access\<newline>''])"
  proof -
    have "v = py ''initial_access'' @ [] \<or> v = py ''initial_access'' @ py ''_agent''
          \<or> v = py ''initial_access'' @ py ''\<newline>''"
      using that by (auto simp: py_def)
    then have "\<exists>r. v = [] @ token_with (cp (CHR ''_'')) @ r"
      unfolding token_with_def by (auto simp: py_def)
    then show ?thesis unfolding sublist_def by blast
  qed
  have each: "(\<exists>c\<in>set (py ''_-./ ''). sublist (token_with c) v)
     = (sublist (token_with (cp (CHR ''_''))) v \<or> sublist (token_with (cp (CHR ''-''))) v
        \<or> sublist (token_with (cp (CHR ''.''))) v \<or> sublist (token_with (cp (CHR ''/''))) v
        \<or> sublist (token_with (cp (CHR '' ''))) v)"
    by (simp add: py_def)
  have sp: "str_in (py ''initial_access'') (replace_char (cp (CHR '' '')) (cp (CHR ''_'')) v)
      = (sublist (token_with (cp (CHR '' ''))) v \<or> sublist (token_with (cp (CHR ''_''))) v)"
    by (rule token_in_replace_char) (simp add: py_def)
  have hy: "str_in (py ''initial_access'') (replace_char (cp (CHR ''-'')) (cp (CHR ''_'')) v)
      = (sublist (token_with (cp (CHR ''-''))) v \<or> sublist (token_with (cp (CHR ''_''))) v)"
    by (rule token_in_replace_char) (simp add: py_def)
  have dt: "str_in (py ''initial_access'') (replace_char (cp (CHR ''.'')) (cp (CHR ''_'')) v)
      = (sublist (token_with (cp (CHR ''.''))) v \<or> sublist (token_with (cp (CHR ''_''))) v)"
    by (rule token_in_replace_char) (simp add: py_def)
  have sl: "str_in (py ''initial_access'') (replace_char (cp (CHR ''/'')) (cp (CHR ''_'')) v)
      = (sublist (token_with (cp (CHR ''/''))) v \<or> sublist (token_with (cp (CHR ''_''))) v)"
    by (rule token_in_replace_char) (simp add: py_def)
  show ?thesis
    unfolding each sp hy dt sl plain using members by blast
qed

lemma is_initial_access_agent_str:
  "is_initial_access_agent E (PStr s)
   = Inr (str_in (py ''initial_access'') (normalize_separators (lower E s)))"
proof -
  have "is_initial_access_agent E (PStr s)
        = Inr (\<exists>c\<in>set (py ''_-./ ''). sublist (token_with c) (lower E (strip s)))"
    unfolding is_initial_access_agent_def or_empty_str Let_def initial_access_test
    by simp
  also have "(\<exists>c\<in>set (py ''_-./ ''). sublist (token_with c) (lower E (strip s)))
             = (\<exists>c\<in>set (py ''_-./ ''). sublist (token_with c) (lower E s))"
    unfolding token_word_strip ..
  finally show ?thesis
    by (simp only: token_in_normalize_separators)
qed

lemma is_summary_agent_str:
  "is_summary_agent E (PStr s) = Inr (str_in (py ''summary'') (lower E s))"
proof -
  have "sublist (py ''summary'') (lower E (strip s)) = sublist (py ''summary'') (lower E s)"
    by (rule sublist_lower_strip) (simp_all add: is_space_def py_def cp_def)
  then show ?thesis
    unfolding is_summary_agent_def or_empty_str Let_def
    by (auto simp: str_in_sublist)
qed

text \<open>\<open>agent_role\<close> is the classification \<^verbatim>\<open>_create_ai_message\<close> acts on.\<close>

lemma sanitize_for_agent_by_role:
  "sanitize_for_agent E agent_name content =
     (case agent_role E agent_name of
        Inl e \<Rightarrow> Inl e
      | Inr InitialAccessRole \<Rightarrow> sanitize_initial_access_output E content
      | Inr SummaryRole \<Rightarrow> sanitize_summary_output E content
      | Inr OtherRole \<Rightarrow> Inr content)"
  by (simp add: sanitize_for_agent_def agent_role_def split: sum.split)

text \<open>
  Claim C5, as the code has it. For every agent name that is a string, the name is of the
  initial-access role exactly when its lower-cased form contains \<^verbatim>\<open>initial_access\<close>
  after each hyphen, full stop, slash and space character has been replaced by an
  underscore; it is of the summary role exactly when it is not of the initial-access role
  and its lower-cased form contains \<^verbatim>\<open>summary\<close>; every other name is of the other role.
\<close>

theorem agent_role_classification:
  "agent_role E (PStr s) =
     Inr (if str_in (py ''initial_access'') (normalize_separators (lower E s))
          then InitialAccessRole
          else if str_in (py ''summary'') (lower E s) then SummaryRole
          else OtherRole)"
  by (simp add: agent_role_def is_initial_access_agent_str is_summary_agent_str)

lemma role_of_tab_name:
  "agent_role sample_env (PStr (py (''initial'' @ [CHR 0x09] @ ''access''))) = Inr OtherRole"
proof -
  have "lower sample_env (py (''initial'' @ [CHR 0x09] @ ''access''))
        = py (map lower_char (''initial'' @ [CHR 0x09] @ ''access''))"
    by (rule lower_literal) simp
  moreover have "\<not> str_in (py ''initial_access'')
      (normalize_separators (py (map lower_char (''initial'' @ [CHR 0x09] @ ''access''))))"
    by code_simp
  moreover have "\<not> sublist ''summary'' (map lower_char (''initial'' @ [CHR 0x09] @ ''access''))"
    by code_simp
  ultimately show ?thesis
    by (simp add: agent_role_def is_initial_access_agent_str is_summary_agent_str
          str_in_sublist sublist_py)
qed

lemma spec_normalize_tab_name:
  "str_in (py ''initial_access'')
     (spec_normalize sample_env (py (''initial'' @ [CHR 0x09] @ ''access'')))"
proof -
  let ?S = "\<lambda>c. c \<in> set (py ''-./_'') \<or> is_space c"
  have "lower sample_env (py (''initial'' @ [CHR 0x09] @ ''access''))
        = py (map lower_char (''initial'' @ [CHR 0x09] @ ''access''))"
    by (rule lower_literal) simp
  moreover have "map lower_char (''initial'' @ [CHR 0x09] @ ''access'')
                 = ''initial'' @ [CHR 0x09] @ ''access''"
    by code_simp
  moreover have "py (''initial'' @ [CHR 0x09] @ ''access'') = token_with 9"
    by (simp add: token_with_def py_def cp_def)
  ultimately have low: "lower sample_env (py (''initial'' @ [CHR 0x09] @ ''access''))
                        = token_with 9"
    by (simp only:)
  have "\<forall>x\<in>set (py ''initialaccess''). \<not> ?S x"
    by (simp add: py_def cp_def is_space_def)
  from token_in_separator_map [of ?S, OF this, of "token_with 9"]
  have "str_in (py ''initial_access'')
          (map (\<lambda>c. if ?S c then cp (CHR ''_'') else c) (token_with 9))
        = (\<exists>c. (?S c \<or> c = cp (CHR ''_'')) \<and> sublist (token_with c) (token_with 9))" .
  moreover have "is_space 9" by (simp add: is_space_def)
  then have "\<exists>c. (?S c \<or> c = cp (CHR ''_'')) \<and> sublist (token_with c) (token_with 9)"
    by (intro exI [of _ 9]) simp
  ultimately show ?thesis
    unfolding spec_normalize_def low by blast
qed

lemma lower_both_name:
  "lower sample_env (py ''initial_access_summary'') = py ''initial_access_summary''"
proof -
  have "lower sample_env (py ''initial_access_summary'')
        = py (map lower_char ''initial_access_summary'')"
    by (rule lower_literal) simp
  moreover have "map lower_char ''initial_access_summary'' = ''initial_access_summary''"
    by code_simp
  ultimately show ?thesis by simp
qed

lemma role_of_both_name:
  "agent_role sample_env (PStr (py ''initial_access_summary'')) = Inr InitialAccessRole"
proof -
  have "str_in (py ''initial_access'') (normalize_separators (py ''initial_access_summary''))"
    by code_simp
  then show ?thesis
    by (simp add: agent_role_def is_initial_access_agent_str lower_both_name)
qed

lemma summary_in_both_name:
  "str_in (py ''summary'') (lower sample_env (py ''initial_access_summary''))"
proof -
  have "sublist ''summary'' ''initial_access_summary''" by code_simp
  then show ?thesis
    by (simp only: lower_both_name str_in_sublist sublist_py)
qed

text \<open>
  Claim C5 as stated fails twice. The name \<^verbatim>\<open>initial<TAB>access\<close> contains the token once
  whitespace is normalised to an underscore, and the code gives it the other role: only the
  space character is replaced, not every whitespace character. The name
  \<^verbatim>\<open>initial_access_summary\<close> contains \<^verbatim>\<open>summary\<close>, and the code gives it the
  initial-access role, not the summary role: the summary test is an \<^verbatim>\<open>elif\<close>.
\<close>

theorem agent_role_classification_counterexample:
  "str_in (py ''initial_access'')
     (spec_normalize sample_env (py (''initial'' @ [CHR 0x09] @ ''access'')))
   \<and> agent_role sample_env (PStr (py (''initial'' @ [CHR 0x09] @ ''access''))) = Inr OtherRole
   \<and> str_in (py ''summary'') (lower sample_env (py ''initial_access_summary''))
   \<and> agent_role sample_env (PStr (py ''initial_access_summary'')) = Inr InitialAccessRole
   \<and> agent_role sample_env (PStr (py ''initial_access_summary'')) \<noteq> Inr SummaryRole"
  using role_of_tab_name spec_normalize_tab_name role_of_both_name summary_in_both_name
  by simp


section \<open>Messages built from events\<close>

lemma py_eq_iff [simp]: "(py s = py t) = (s = t)"
proof -
  have "inj cp" by (simp add: inj_on_def cp_def)
  then show ?thesis unfolding py_def by (rule inj_map_eq_map)
qed

lemma py_eq_Nil [simp]: "(py s = []) = (s = [])"
  by (simp add: py_def)

lemma ai_message_id_str:
  "ai_message_id E now (PStr a) (PStr c) =
     Inr (py ''ai_'' @ lower E a @ py ''_''
          @ format_value E (PInt (hash_value E (PStr (take 100 c)))) @ py ''_'' @ now)"
  by (simp add: ai_message_id_def lower_method_def slice_100_def py_hash_def)

lemma create_ai_message_content:
  assumes "sanitize_for_agent E (PStr a) content = Inr (PStr c')"
    and "\<not> isl (extract_tool_calls E raw ev)"
  shows "\<exists>m. create_ai_message E now (PStr a) dn av content raw ev = Inr m
             \<and> m ''content'' = Some (PStr c')"
proof -
  from assms(2) obtain tc where "extract_tool_calls E raw ev = Inr tc"
    by (cases "extract_tool_calls E raw ev") simp_all
  with assms(1) show ?thesis
    by (simp add: create_ai_message_def ai_message_id_str lower_method_def Let_def)
qed

text \<open>The initial-access sanitizer on the text that \<^verbatim>\<open>content or ""\<close> evaluates to.\<close>

lemma sanitize_initial_access_output_text:
  assumes "or_empty content = PStr c"
  shows "sanitize_initial_access_output E content =
     Inr (PStr (if \<not> str_in initial_access_required_heading (lower E c)
                   \<or> (\<exists>t\<in>set initial_access_banned_terms. str_in t (lower E c))
                then initial_access_safe_template else c))"
  using assms by (simp add: sanitize_initial_access_output_def Let_def any_banned_iff)

text \<open>
  Claim C2. For every AI event whose agent name is of the initial-access role, with the
  text \<open>c\<close> as content: when the lower-cased form of \<open>c\<close> lacks the heading
  \<^verbatim>\<open>initial access assessment (simulated)\<close> or contains a term of the initial-access banned
  list, the content of the message is the initial-access fallback template; otherwise it
  is \<open>c\<close>, the content of the event, unchanged. A content that is absent, \<^verbatim>\<open>None\<close> or
  another value that \<^verbatim>\<open>content or ""\<close> replaces by the empty text counts as the empty text,
  which lacks the heading. The message is produced whenever the collaborators return.
\<close>

theorem initial_access_event_content:
  assumes "event_data ''message_type'' = Some (PStr (py ''ai''))"
    and "dict_get_default event_data ''agent_name'' (PStr (py ''Unknown'')) = PStr a"
    and "agent_role E (PStr a) = Inr InitialAccessRole"
    and "or_empty (dict_get_default event_data ''content'' (PStr [])) = PStr c"
    and "collaborators_return E event_data"
  shows "\<exists>m. process_cli_event E now event_data = Inr m
             \<and> m ''content'' =
                 Some (PStr (if \<not> str_in initial_access_required_heading (lower E c)
                                \<or> (\<exists>t\<in>set initial_access_banned_terms. str_in t (lower E c))
                             then initial_access_safe_template else c))"
proof -
  let ?content = "dict_get_default event_data ''content'' (PStr [])"
  from assms(3) have ia: "is_initial_access_agent E (PStr a) = Inr True"
    by (auto simp: agent_role_def split: sum.splits if_splits)
  have san: "sanitize_for_agent E (PStr a) ?content =
     Inr (PStr (if \<not> str_in initial_access_required_heading (lower E c)
                   \<or> (\<exists>t\<in>set initial_access_banned_terms. str_in t (lower E c))
                then initial_access_safe_template else c))"
    by (simp add: sanitize_for_agent_def ia sanitize_initial_access_output_text [OF assms(4)])
  from assms(5) assms(2) obtain dn av
    where dn: "get_display_name E (PStr a) = Inr dn"
      and av: "get_avatar E (PStr a) = Inr av"
      and tc: "\<not> isl (extract_tool_calls E (dict_get event_data ''raw_message'') event_data)"
    by (cases "get_display_name E (PStr a)"; cases "get_avatar E (PStr a)")
       (simp_all add: collaborators_return_def)
  from assms(1)
  have mt: "dict_get_default event_data ''message_type'' (PStr []) = PStr (py ''ai'')"
    by (simp add: dict_get_default_def)
  have "process_cli_event E now event_data =
          create_ai_message E now (PStr a) dn av ?content
            (dict_get event_data ''raw_message'') event_data"
    by (simp add: process_cli_event_def Let_def mt assms(2) dn av)
  with create_ai_message_content [OF san tc] show ?thesis by simp
qed

text \<open>Looking for terms in the lower case of a literal, character by character.\<close>

lemma str_in_lower_literal:
  assumes "list_all (\<lambda>c. \<not> digit7 c) s"
  shows "str_in (py t) (lower E (py s)) = sublist t (map lower_char s)"
  by (simp only: lower_literal [OF assms] str_in_sublist sublist_py)

lemma any_banned_lower_literal:
  assumes "list_all (\<lambda>c. \<not> digit7 c) s"
  shows "any_banned (map py ts) (lower E (py s))
         = list_ex (\<lambda>t. sublist t (map lower_char s)) ts"
  by (simp add: any_banned_iff lower_literal [OF assms] str_in_sublist sublist_py list_ex_iff)

text \<open>\<^verbatim>\<open>str.lower()\<close> on a literal followed by more text.\<close>

lemma lower_from_literal:
  assumes "list_all (\<lambda>c. \<not> digit7 c) s"
  shows "lower_from U before (py s @ rest)
         = py (map lower_char s) @ lower_from U (before @ py s) rest"
  using assms
proof (induction s arbitrary: before)
  case Nil
  show ?case by (simp add: py_def)
next
  case (Cons c s)
  then have c: "cp c < 128" and s: "list_all (\<lambda>c. \<not> digit7 c) s"
    by (simp_all add: cp_ascii)
  from Cons.IH [OF s, of "before @ [cp c]"] c show ?case
    by (simp add: py_def lower_at_def cp_lower_char)
qed

text \<open>The agent name and the contents of the examples.\<close>

lemma role_of_initial_access_agent:
  "agent_role sample_env (PStr (py ''Initial_Access_Agent'')) = Inr InitialAccessRole"
proof -
  have "lower sample_env (py ''Initial_Access_Agent'')
        = py (map lower_char ''Initial_Access_Agent'')"
    by (rule lower_literal) simp
  moreover have "map lower_char ''Initial_Access_Agent'' = ''initial_access_agent''"
    by code_simp
  moreover have "str_in (py ''initial_access'')
                   (normalize_separators (py ''initial_access_agent''))"
    by code_simp
  ultimately show ?thesis
    by (simp add: agent_role_def is_initial_access_agent_str)
qed

lemma random_text_lacks_heading:
  "\<not> str_in initial_access_required_heading
       (lower sample_env (py ''random text without heading''))"
proof -
  have "\<not> sublist ''initial access assessment (simulated)''
            (map lower_char ''random text without heading'')"
    by code_simp
  then show ?thesis
    unfolding initial_access_required_heading_def
    by (subst str_in_lower_literal) simp_all
qed

lemma empty_text_lacks_heading:
  "\<not> str_in initial_access_required_heading (lower sample_env [])"
  by (simp add: initial_access_required_heading_def lower_def py_def)

lemma clean_text_passes:
  "str_in initial_access_required_heading
     (lower sample_env (py ''Initial Access Assessment (Simulated): no findings''))
   \<and> \<not> (\<exists>t\<in>set initial_access_banned_terms.
          str_in t (lower sample_env (py ''Initial Access Assessment (Simulated): no findings'')))"
proof -
  have "sublist ''initial access assessment (simulated)''
          (map lower_char ''Initial Access Assessment (Simulated): no findings'')"
    by code_simp
  then have heading: "str_in initial_access_required_heading
     (lower sample_env (py ''Initial Access Assessment (Simulated): no findings''))"
    unfolding initial_access_required_heading_def
    by (subst str_in_lower_literal) simp_all
  have "\<not> list_ex
           (\<lambda>t. sublist t (map lower_char ''Initial Access Assessment (Simulated): no findings''))
           [''cve'', ''exploit'', ''backdoor'', ''rce'', ''shell'', ''root'', ''metasploit'',
            ''eternalblue'', ''brute-force'', ''bruteforce'', ''command'', ''payload'',
            ''port-by-port'']"
    by code_simp
  then have "\<not> any_banned initial_access_banned_terms
     (lower sample_env (py ''Initial Access Assessment (Simulated): no findings''))"
    unfolding initial_access_banned_terms_def
    by (subst any_banned_lower_literal) simp_all
  with heading show ?thesis
    unfolding any_banned_iff by (rule conjI)
qed

lemma exploit_text_has_banned_term:
  "str_in initial_access_required_heading
     (lower sample_env (py ''Initial Access Assessment (Simulated): run the Exploit''))
   \<and> (\<exists>t\<in>set initial_access_banned_terms.
        str_in t (lower sample_env (py ''Initial Access Assessment (Simulated): run the Exploit'')))"
proof -
  have "sublist ''initial access assessment (simulated)''
          (map lower_char ''Initial Access Assessment (Simulated): run the Exploit'')"
    by code_simp
  then have heading: "str_in initial_access_required_heading
     (lower sample_env (py ''Initial Access Assessment (Simulated): run the Exploit''))"
    unfolding initial_access_required_heading_def
    by (subst str_in_lower_literal) simp_all
  have "sublist ''exploit''
          (map lower_char ''Initial Access Assessment (Simulated): run the Exploit'')"
    by code_simp
  then have "str_in (py ''exploit'')
     (lower sample_env (py ''Initial Access Assessment (Simulated): run the Exploit''))"
    by (subst str_in_lower_literal) simp_all
  moreover have "py ''exploit'' \<in> set initial_access_banned_terms"
    by (simp add: initial_access_banned_terms_def)
  ultimately show ?thesis using heading by blast
qed

text \<open>A text with the heading and the word \<^verbatim>\<open>bacKdoor\<close> written with the Kelvin sign
  U+212A in place of the letter: its lower case has the letter \<^verbatim>\<open>k\<close>, and so the banned
  term \<^verbatim>\<open>backdoor\<close>.\<close>

lemma kelvin_text_lower:
  "lower sample_env (py ''Initial Access Assessment (Simulated) bac'' @ [0x212A] @ py ''door'')
   = py ''initial access assessment (simulated) backdoor''"
proof -
  let ?U = "unicode_lower sample_env"
  let ?head = "''Initial Access Assessment (Simulated) bac''"
  have head: "lower_from ?U [] (py ?head @ [0x212A] @ py ''door'')
              = py (map lower_char ?head) @ lower_from ?U ([] @ py ?head) ([0x212A] @ py ''door'')"
    by (rule lower_from_literal) simp
  have sign: "lower_at ?U before 0x212A after = [0x6B]" for before after
    by (simp add: lower_at_def is_space_def sample_env_def)
  have "lower_from ?U before (py ''door'' @ []) 
        = py (map lower_char ''door'') @ lower_from ?U (before @ py ''door'') []" for before
    by (rule lower_from_literal) simp
  then have door: "lower_from ?U before (py ''door'') = py (map lower_char ''door'')" for before
    by simp
  have low: "map lower_char ?head = ''initial access assessment (simulated) bac''"
    "map lower_char ''door'' = ''door''"
    by code_simp+
  have "lower sample_env (py ?head @ [0x212A] @ py ''door'')
        = py ''initial access assessment (simulated) bac'' @ [0x6B] @ py ''door''"
    unfolding lower_def head
    by (simp only: append_Cons append_Nil lower_from.simps sign door low)
  also have "\<dots> = py ''initial access assessment (simulated) backdoor''"
    by (simp add: py_def cp_def)
  finally show ?thesis .
qed

lemma kelvin_text_has_banned_term:
  "str_in initial_access_required_heading
     (lower sample_env
        (py ''Initial Access Assessment (Simulated) bac'' @ [0x212A] @ py ''door''))
   \<and> (\<exists>t\<in>set initial_access_banned_terms.
        str_in t (lower sample_env
                    (py ''Initial Access Assessment (Simulated) bac'' @ [0x212A] @ py ''door'')))"
proof -
  have "sublist ''initial access assessment (simulated)''
          ''initial access assessment (simulated) backdoor''"
    by code_simp
  then have heading: "str_in initial_access_required_heading
     (py ''initial access assessment (simulated) backdoor'')"
    by (simp only: initial_access_required_heading_def str_in_sublist sublist_py)
  have "sublist ''backdoor'' ''initial access assessment (simulated) backdoor''"
    by code_simp
  then have "str_in (py ''backdoor'') (py ''initial access assessment (simulated) backdoor'')"
    by (simp only: str_in_sublist sublist_py)
  moreover have "py ''backdoor'' \<in> set initial_access_banned_terms"
    by (simp add: initial_access_banned_terms_def)
  ultimately show ?thesis
    unfolding kelvin_text_lower using heading by blast
qed

lemma sample_env_returns: "collaborators_return sample_env ev"
  by (simp add: collaborators_return_def sample_env_def)

text \<open>The example of the specification, a text without the heading; a text that passes
  both checks; a text with the heading and a banned term; a text with the heading whose
  lower case has a banned term through the Kelvin sign; the content \<^verbatim>\<open>None\<close>.\<close>

theorem initial_access_event_content_witness:
  "(\<exists>m. process_cli_event sample_env (py ''1700000000.5'')
           [''message_type'' \<mapsto> PStr (py ''ai''),
            ''agent_name'' \<mapsto> PStr (py ''Initial_Access_Agent''),
            ''content'' \<mapsto> PStr (py ''random text without heading'')] = Inr m
        \<and> m ''content'' = Some (PStr initial_access_safe_template))
   \<and> (\<exists>m. process_cli_event sample_env (py ''1700000000.5'')
           [''message_type'' \<mapsto> PStr (py ''ai''),
            ''agent_name'' \<mapsto> PStr (py ''Initial_Access_Agent''),
            ''content'' \<mapsto> PStr (py ''Initial Access Assessment (Simulated): no findings'')]
          = Inr m
        \<and> m ''content''
          = Some (PStr (py ''Initial Access Assessment (Simulated): no findings'')))
   \<and> (\<exists>m. process_cli_event sample_env (py ''1700000000.5'')
           [''message_type'' \<mapsto> PStr (py ''ai''),
            ''agent_name'' \<mapsto> PStr (py ''Initial_Access_Agent''),
            ''content'' \<mapsto> PStr (py ''Initial Access Assessment (Simulated): run the Exploit'')]
          = Inr m
        \<and> m ''content'' = Some (PStr initial_access_safe_template))
   \<and> (\<exists>m. process_cli_event sample_env (py ''1700000000.5'')
           [''message_type'' \<mapsto> PStr (py ''ai''),
            ''agent_name'' \<mapsto> PStr (py ''Initial_Access_Agent''),
            ''content'' \<mapsto>
              PStr (py ''Initial Access Assessment (Simulated) bac'' @ [0x212A] @ py ''door'')]
          = Inr m
        \<and> m ''content'' = Some (PStr initial_access_safe_template))
   \<and> (\<exists>m. process_cli_event sample_env (py ''1700000000.5'')
           [''message_type'' \<mapsto> PStr (py ''ai''),
            ''agent_name'' \<mapsto> PStr (py ''Initial_Access_Agent''),
            ''content'' \<mapsto> PNone] = Inr m
        \<and> m ''content'' = Some (PStr initial_access_safe_template))"
proof -
  let ?now = "py ''1700000000.5''"
  let ?agent = "''Initial_Access_Agent''"
  let ?event = "\<lambda>content. [''message_type'' \<mapsto> PStr (py ''ai''),
                           ''agent_name'' \<mapsto> PStr (py ?agent), ''content'' \<mapsto> content]"
  have hyps: "?event content ''message_type'' = Some (PStr (py ''ai''))"
    "dict_get_default (?event content) ''agent_name'' (PStr (py ''Unknown'')) = PStr (py ?agent)"
    "dict_get_default (?event content) ''content'' (PStr []) = content" for content
    by (simp_all add: dict_get_default_def)
  have text_content: "or_empty (dict_get_default (?event (PStr c)) ''content'' (PStr [])) = PStr c"
    for c
    unfolding hyps by (rule or_empty_str)
  have none_content: "or_empty (dict_get_default (?event PNone) ''content'' (PStr [])) = PStr []"
    unfolding hyps by (simp add: or_empty_def)
  note inst = initial_access_event_content
    [of _ "py ?agent" sample_env _ ?now, OF hyps(1) hyps(2) role_of_initial_access_agent _
       sample_env_returns]
  from inst [OF text_content, of "py ''random text without heading''"]
    random_text_lacks_heading
  have first: "\<exists>m. process_cli_event sample_env ?now
                      (?event (PStr (py ''random text without heading''))) = Inr m
                 \<and> m ''content'' = Some (PStr initial_access_safe_template)"
    by simp
  from inst [OF text_content, of "py ''Initial Access Assessment (Simulated): no findings''"]
    clean_text_passes
  have second: "\<exists>m. process_cli_event sample_env ?now
       (?event (PStr (py ''Initial Access Assessment (Simulated): no findings''))) = Inr m
     \<and> m ''content'' = Some (PStr (py ''Initial Access Assessment (Simulated): no findings''))"
    by simp
  from inst [OF text_content, of "py ''Initial Access Assessment (Simulated): run the Exploit''"]
    exploit_text_has_banned_term
  have third: "\<exists>m. process_cli_event sample_env ?now
       (?event (PStr (py ''Initial Access Assessment (Simulated): run the Exploit''))) = Inr m
     \<and> m ''content'' = Some (PStr initial_access_safe_template)"
    by simp
  from inst [OF text_content,
             of "py ''Initial Access Assessment (Simulated) bac'' @ [0x212A] @ py ''door''"]
    kelvin_text_has_banned_term
  have fourth: "\<exists>m. process_cli_event sample_env ?now
       (?event (PStr (py ''Initial Access Assessment (Simulated) bac'' @ [0x212A] @ py ''door'')))
       = Inr m
     \<and> m ''content'' = Some (PStr initial_access_safe_template)"
    by simp
  from inst [OF none_content] empty_text_lacks_heading
  have fifth: "\<exists>m. process_cli_event sample_env ?now (?event PNone) = Inr m
     \<and> m ''content'' = Some (PStr initial_access_safe_template)"
    by simp
  from first second third fourth fifth show ?thesis by (intro conjI)
qed

text \<open>
  Claim C6. For every event with message type \<^verbatim>\<open>tool\<close> or \<^verbatim>\<open>user\<close> and a text as
  content, the content of the message is that text, unchanged. The message is produced
  whenever the collaborators return.
\<close>

theorem tool_user_content_unchanged:
  assumes "event_data ''message_type'' = Some (PStr (py ''tool''))
           \<or> event_data ''message_type'' = Some (PStr (py ''user''))"
    and "event_data ''content'' = Some (PStr c)"
    and "collaborators_return E event_data"
  shows "\<exists>m. process_cli_event E now event_data = Inr m \<and> m ''content'' = Some (PStr c)"
proof -
  let ?agent = "dict_get_default event_data ''agent_name'' (PStr (py ''Unknown''))"
  let ?tool = "dict_get_default event_data ''tool_name'' (PStr (py ''Unknown Tool''))"
  from assms(3) obtain dn av pt
    where dn: "get_display_name E ?agent = Inr dn"
      and av: "get_avatar E ?agent = Inr av"
      and pt: "parse_tool_name E ?tool = Inr pt"
    by (cases "get_display_name E ?agent"; cases "get_avatar E ?agent";
        cases "parse_tool_name E ?tool")
       (simp_all add: collaborators_return_def)
  from assms(2) have c: "dict_get_default event_data ''content'' (PStr []) = PStr c"
    by (simp add: dict_get_default_def)
  from assms(1) show ?thesis
  proof
    assume "event_data ''message_type'' = Some (PStr (py ''tool''))"
    then have "dict_get_default event_data ''message_type'' (PStr []) = PStr (py ''tool'')"
      by (simp add: dict_get_default_def)
    then have "process_cli_event E now event_data = create_tool_message E now event_data (PStr c)"
      by (simp add: process_cli_event_def Let_def c dn av)
    then show ?thesis
      by (simp add: create_tool_message_def Let_def pt slice_100_def py_hash_def)
  next
    assume "event_data ''message_type'' = Some (PStr (py ''user''))"
    then have "dict_get_default event_data ''message_type'' (PStr []) = PStr (py ''user'')"
      by (simp add: dict_get_default_def)
    then have "process_cli_event E now event_data = create_user_message E now (PStr c)"
      by (simp add: process_cli_event_def Let_def c dn av)
    then show ?thesis
      by (simp add: create_user_message_def py_hash_def)
  qed
qed

text \<open>The tool example of the specification, and a user event.\<close>

theorem tool_user_content_unchanged_witness:
  "(\<exists>m. process_cli_event sample_env (py ''1700000000.5'')
           [''message_type'' \<mapsto> PStr (py ''tool''), ''tool_name'' \<mapsto> PStr (py ''nmap_scan''),
            ''content'' \<mapsto> PStr (py ''raw nmap output'')] = Inr m
        \<and> m ''content'' = Some (PStr (py ''raw nmap output'')))
   \<and> (\<exists>m. process_cli_event sample_env (py ''1700000000.5'')
           [''message_type'' \<mapsto> PStr (py ''user''), ''content'' \<mapsto> PStr (py ''run exploit'')]
          = Inr m
        \<and> m ''content'' = Some (PStr (py ''run exploit'')))"
  using
    tool_user_content_unchanged
      [of "[''message_type'' \<mapsto> PStr (py ''tool''), ''tool_name'' \<mapsto> PStr (py ''nmap_scan''),
            ''content'' \<mapsto> PStr (py ''raw nmap output'')]"
          "py ''raw nmap output''" sample_env "py ''1700000000.5''"]
    tool_user_content_unchanged
      [of "[''message_type'' \<mapsto> PStr (py ''user''), ''content'' \<mapsto> PStr (py ''run exploit'')]"
          "py ''run exploit''" sample_env "py ''1700000000.5''"]
    sample_env_returns
  by simp

lemma is_initial_access_agent_none: "is_initial_access_agent E PNone = Inr False"
  by (simp add: is_initial_access_agent_def or_empty_def strip_def lower_def replace_char_def
        py_def)

lemma is_summary_agent_none: "is_summary_agent E PNone = Inr False"
  by (simp add: is_summary_agent_def or_empty_def strip_def lower_def py_def)

lemma create_ai_message_none_agent:
  "create_ai_message E now PNone dn av content raw ev = Inl AttributeError"
  by (simp add: create_ai_message_def sanitize_for_agent_def is_initial_access_agent_none
        is_summary_agent_none lower_method_def)

text \<open>
  Claim C4. \<^verbatim>\<open>process_cli_event\<close> never raises, also for a field that is present with
  the value \<^verbatim>\<open>None\<close>.

  The code raises on the event
  \<^verbatim>\<open>{"message_type": "ai", "agent_name": None, "content": "x"}\<close>, whatever the
  collaborators do: \<^verbatim>\<open>get\<close> returns the \<^verbatim>\<open>None\<close> that is present, the two role tests
  guard it with \<^verbatim>\<open>agent_name or ""\<close>, and \<^verbatim>\<open>agent_name.lower()\<close> on line 76 does not.
\<close>

theorem process_cli_event_none_agent_raises:
  "\<exists>e. process_cli_event E now
          [''message_type'' \<mapsto> PStr (py ''ai''), ''agent_name'' \<mapsto> PNone,
           ''content'' \<mapsto> PStr (py ''x'')]
        = Inl e"
  by (simp add: process_cli_event_def dict_get_default_def dict_get_def Let_def
        create_ai_message_none_agent split: sum.split)

text \<open>With collaborators that return, the exception is the \<^verbatim>\<open>AttributeError\<close> of line 76;
  a tool event whose content is \<^verbatim>\<open>None\<close> raises the \<^verbatim>\<open>TypeError\<close> of
  \<^verbatim>\<open>content[:100]\<close>.\<close>

lemma process_cli_event_none_agent_sample:
  "process_cli_event sample_env now
     [''message_type'' \<mapsto> PStr (py ''ai''), ''agent_name'' \<mapsto> PNone,
      ''content'' \<mapsto> PStr (py ''x'')]
   = Inl AttributeError"
  by (simp add: process_cli_event_def dict_get_default_def dict_get_def Let_def
        create_ai_message_none_agent sample_env_def)

lemma process_cli_event_none_content_sample:
  "process_cli_event sample_env now
     [''message_type'' \<mapsto> PStr (py ''tool''), ''tool_name'' \<mapsto> PStr (py ''nmap_scan''),
      ''content'' \<mapsto> PNone]
   = Inl TypeError"
  by (simp add: process_cli_event_def dict_get_default_def dict_get_def Let_def
        create_tool_message_def slice_100_def sample_env_def)

text \<open>When the agent name and the content are absent or strings and the collaborators
  return, the call returns a message. The message type and the tool name may be any
  value.\<close>

lemma sanitize_for_agent_str:
  "\<exists>c'. sanitize_for_agent E (PStr a) (PStr c) = Inr (PStr c')"
  by (simp add: sanitize_for_agent_def is_initial_access_agent_str is_summary_agent_str
        sanitize_initial_access_output_str sanitize_summary_output_str)

lemma process_cli_event_returns_on_strings:
  assumes "dict_get_default event_data ''agent_name'' (PStr (py ''Unknown'')) = PStr a"
    and "dict_get_default event_data ''content'' (PStr []) = PStr c"
    and "collaborators_return E event_data"
  shows "\<exists>m. process_cli_event E now event_data = Inr m"
proof -
  let ?tool = "dict_get_default event_data ''tool_name'' (PStr (py ''Unknown Tool''))"
  let ?mt = "dict_get_default event_data ''message_type'' (PStr [])"
  from assms(3) assms(1) obtain dn av pt
    where dn: "get_display_name E (PStr a) = Inr dn"
      and av: "get_avatar E (PStr a) = Inr av"
      and pt: "parse_tool_name E ?tool = Inr pt"
      and tc: "\<not> isl (extract_tool_calls E (dict_get event_data ''raw_message'') event_data)"
    by (cases "get_display_name E (PStr a)"; cases "get_avatar E (PStr a)";
        cases "parse_tool_name E ?tool")
       (simp_all add: collaborators_return_def)
  from sanitize_for_agent_str obtain c'
    where "sanitize_for_agent E (PStr a) (PStr c) = Inr (PStr c')" by blast
  from create_ai_message_content [OF this tc]
  have ai: "\<exists>m. create_ai_message E now (PStr a) dn av (PStr c)
                 (dict_get event_data ''raw_message'') event_data = Inr m"
    by blast
  have tool: "\<exists>m. create_tool_message E now event_data (PStr c) = Inr m"
    by (simp add: create_tool_message_def Let_def pt slice_100_def py_hash_def)
  have user: "\<exists>m. create_user_message E now (PStr c) = Inr m"
    by (simp add: create_user_message_def py_hash_def)
  from ai tool user show ?thesis
    by (simp add: process_cli_event_def Let_def assms(1) assms(2) dn av)
qed

section \<open>The clock in the message id\<close>

text \<open>Every call is the same up to the clock: there is a result that does not depend on
  the clock, an error or a message together with the part of the id before the timestamp,
  and the call returns it with the timestamp appended to the id.\<close>

lemma create_user_message_clock:
  "\<exists>r. \<forall>now. create_user_message E now content
               = map_sum id (\<lambda>(m, p). m(''id'' \<mapsto> PStr (p @ now))) r"
proof (cases "py_hash E content")
  case (Inl e)
  then show ?thesis
    by (intro exI [of _ "Inl e"]) (simp add: create_user_message_def)
next
  case (Inr h)
  then show ?thesis
    by (intro exI [of _ "Inr ([''type'' \<mapsto> PStr (py ''user''), ''content'' \<mapsto> content],
                              py ''user_'' @ format_value E (PInt h) @ py ''_'')"])
       (simp add: create_user_message_def)
qed

lemma create_tool_message_clock:
  "\<exists>r. \<forall>now. create_tool_message E now ev content
               = map_sum id (\<lambda>(m, p). m(''id'' \<mapsto> PStr (p @ now))) r"
proof -
  let ?tool = "dict_get_default ev ''tool_name'' (PStr (py ''Unknown Tool''))"
  show ?thesis
  proof (cases "parse_tool_name E ?tool")
    case (Inl e)
    then show ?thesis
      by (intro exI [of _ "Inl e"]) (simp add: create_tool_message_def)
  next
    case pt: (Inr parsed)
    show ?thesis
    proof (cases "slice_100 content")
      case (Inl e)
      with pt show ?thesis
        by (intro exI [of _ "Inl e"]) (simp add: create_tool_message_def)
    next
      case sl: (Inr head)
      show ?thesis
      proof (cases "py_hash E head")
        case (Inl e)
        with pt sl show ?thesis
          by (intro exI [of _ "Inl e"]) (simp add: create_tool_message_def)
      next
        case (Inr h)
        with pt sl show ?thesis
          by (intro exI [of _ "Inr ([''type'' \<mapsto> PStr (py ''tool''),
                                     ''tool_name'' \<mapsto> ?tool,
                                     ''tool_display_name'' \<mapsto>
                                        dict_get_default ev ''tool_display_name'' parsed,
                                     ''content'' \<mapsto> content],
                                    py ''tool_'' @ format_value E ?tool @ py ''_''
                                      @ format_value E (PInt h) @ py ''_'')"])
             (simp add: create_tool_message_def Let_def)
      qed
    qed
  qed
qed

lemma ai_message_id_clock:
  "\<exists>r. \<forall>now. ai_message_id E now agent_name content = map_sum id (\<lambda>p. p @ now) r"
proof (cases "lower_method E agent_name")
  case (Inl e)
  then show ?thesis by (intro exI [of _ "Inl e"]) (simp add: ai_message_id_def)
next
  case lo: (Inr low)
  show ?thesis
  proof (cases "slice_100 content")
    case (Inl e)
    with lo show ?thesis by (intro exI [of _ "Inl e"]) (simp add: ai_message_id_def)
  next
    case sl: (Inr head)
    show ?thesis
    proof (cases "py_hash E head")
      case (Inl e)
      with lo sl show ?thesis by (intro exI [of _ "Inl e"]) (simp add: ai_message_id_def)
    next
      case (Inr h)
      with lo sl show ?thesis
        by (intro exI [of _ "Inr (py ''ai_'' @ low @ py ''_'' @ format_value E (PInt h) @ py ''_'')"])
           (simp add: ai_message_id_def)
    qed
  qed
qed

lemma create_ai_message_clock:
  "\<exists>r. \<forall>now. create_ai_message E now agent_name dn av content raw ev
               = map_sum id (\<lambda>(m, p). m(''id'' \<mapsto> PStr (p @ now))) r"
proof (cases "sanitize_for_agent E agent_name content")
  case (Inl e)
  then show ?thesis by (intro exI [of _ "Inl e"]) (simp add: create_ai_message_def)
next
  case sa: (Inr content')
  show ?thesis
  proof (cases "lower_method E agent_name")
    case (Inl e)
    with sa show ?thesis by (intro exI [of _ "Inl e"]) (simp add: create_ai_message_def)
  next
    case lo: (Inr agent_id)
    from ai_message_id_clock obtain r
      where r: "\<And>now. ai_message_id E now agent_name content' = map_sum id (\<lambda>p. p @ now) r"
      by blast
    show ?thesis
    proof (cases r)
      case (Inl e)
      with sa lo r show ?thesis by (intro exI [of _ "Inl e"]) (simp add: create_ai_message_def)
    next
      case pre: (Inr p)
      let ?m = "[''type'' \<mapsto> PStr (py ''ai''), ''agent_id'' \<mapsto> PStr agent_id,
                 ''display_name'' \<mapsto> dn, ''avatar'' \<mapsto> av, ''content'' \<mapsto> content']"
      show ?thesis
      proof (cases "extract_tool_calls E raw ev")
        case (Inl e)
        with sa lo r pre show ?thesis
          by (intro exI [of _ "Inl e"]) (simp add: create_ai_message_def)
      next
        case tc: (Inr tool_calls)
        show ?thesis
        proof (cases "truthy tool_calls")
          case True
          with sa lo r pre tc show ?thesis
            by (intro exI [of _ "Inr (?m(''tool_calls'' \<mapsto> tool_calls), p)"])
               (simp add: create_ai_message_def fun_upd_twist)
        next
          case False
          with sa lo r pre tc show ?thesis
            by (intro exI [of _ "Inr (?m, p)"]) (simp add: create_ai_message_def)
        qed
      qed
    qed
  qed
qed

lemma process_cli_event_clock:
  "\<exists>r. \<forall>now. process_cli_event E now ev
               = map_sum id (\<lambda>(m, p). m(''id'' \<mapsto> PStr (p @ now))) r"
proof -
  let ?agent = "dict_get_default ev ''agent_name'' (PStr (py ''Unknown''))"
  show ?thesis
  proof (cases "get_display_name E ?agent")
    case (Inl e)
    then show ?thesis by (intro exI [of _ "Inl e"]) (simp add: process_cli_event_def)
  next
    case dn: (Inr display_name)
    show ?thesis
    proof (cases "get_avatar E ?agent")
      case (Inl e)
      with dn show ?thesis by (intro exI [of _ "Inl e"]) (simp add: process_cli_event_def)
    next
      case av: (Inr avatar)
      let ?mt = "dict_get_default ev ''message_type'' (PStr [])"
      let ?content = "dict_get_default ev ''content'' (PStr [])"
      consider (ai) "?mt \<noteq> PStr (py ''tool'')" and "?mt \<noteq> PStr (py ''user'')"
        | (tool) "?mt = PStr (py ''tool'')" | (user) "?mt = PStr (py ''user'')"
        by blast
      then show ?thesis
      proof cases
        case ai
        then have "process_cli_event E now ev
                   = create_ai_message E now ?agent display_name avatar ?content
                       (dict_get ev ''raw_message'') ev" for now
          by (simp add: process_cli_event_def Let_def dn av)
        with create_ai_message_clock show ?thesis by simp
      next
        case tool
        then have "process_cli_event E now ev = create_tool_message E now ev ?content" for now
          by (simp add: process_cli_event_def Let_def dn av)
        with create_tool_message_clock show ?thesis by simp
      next
        case user
        then have "process_cli_event E now ev = create_user_message E now ?content" for now
          by (simp add: process_cli_event_def Let_def dn av)
        with create_user_message_clock show ?thesis by simp
      qed
    qed
  qed
qed

text \<open>
  Claim C3, as the code has it. \<^verbatim>\<open>process_cli_event\<close> is a function of its event and of
  the wall-clock reading taken when the message is built. Two calls with the same event
  raise the same error or return messages that agree on every field other than \<^verbatim>\<open>id\<close>,
  and their \<^verbatim>\<open>id\<close> fields are equal exactly when the two clock readings are equal.
\<close>

theorem process_cli_event_deterministic_up_to_clock:
  "map_sum id (\<lambda>m. m(''id'' := None)) (process_cli_event E now1 ev)
     = map_sum id (\<lambda>m. m(''id'' := None)) (process_cli_event E now2 ev)
   \<and> (\<forall>m1 m2. process_cli_event E now1 ev = Inr m1 \<and> process_cli_event E now2 ev = Inr m2
        \<longrightarrow> (m1 ''id'' = m2 ''id'') = (now1 = now2))"
proof -
  from process_cli_event_clock obtain r
    where r: "\<And>now. process_cli_event E now ev
                      = map_sum id (\<lambda>(m, p). m(''id'' \<mapsto> PStr (p @ now))) r"
    by blast
  show ?thesis
  proof (cases r)
    case (Inl e)
    then show ?thesis by (simp add: r)
  next
    case (Inr mp)
    then show ?thesis by (cases mp) (auto simp: r)
  qed
qed

lemma user_event_message:
  "process_cli_event sample_env now
     [''message_type'' \<mapsto> PStr (py ''user''), ''content'' \<mapsto> PStr (py ''hi'')]
   = Inr [''type'' \<mapsto> PStr (py ''user''), ''content'' \<mapsto> PStr (py ''hi''),
          ''id'' \<mapsto> PStr (py ''user_'' @ py ''0'' @ py ''_'' @ now)]"
  by (simp add: process_cli_event_def create_user_message_def sample_env_def
        dict_get_default_def dict_get_def py_hash_def format_value_def)

theorem process_cli_event_deterministic_up_to_clock_witness:
  "\<exists>m1 m2. process_cli_event sample_env (py ''1700000000.000001'')
              [''message_type'' \<mapsto> PStr (py ''user''), ''content'' \<mapsto> PStr (py ''hi'')] = Inr m1
         \<and> process_cli_event sample_env (py ''1700000000.000002'')
              [''message_type'' \<mapsto> PStr (py ''user''), ''content'' \<mapsto> PStr (py ''hi'')] = Inr m2
         \<and> m1(''id'' := None) = m2(''id'' := None)
         \<and> m1 ''id'' \<noteq> m2 ''id''"
  using process_cli_event_deterministic_up_to_clock
    [of sample_env "py ''1700000000.000001''"
        "[''message_type'' \<mapsto> PStr (py ''user''), ''content'' \<mapsto> PStr (py ''hi'')]"
        "py ''1700000000.000002''"]
  by (simp add: user_event_message)

text \<open>
  Claim C3 as stated fails: the same user event, processed at two clock readings one
  microsecond apart, gives two messages that differ, in their \<^verbatim>\<open>id\<close>.
\<close>

theorem process_cli_event_deterministic_counterexample:
  "process_cli_event sample_env (py ''1700000000.000001'')
     [''message_type'' \<mapsto> PStr (py ''user''), ''content'' \<mapsto> PStr (py ''hi'')]
   \<noteq> process_cli_event sample_env (py ''1700000000.000002'')
     [''message_type'' \<mapsto> PStr (py ''user''), ''content'' \<mapsto> PStr (py ''hi'')]"
proof
  assume "process_cli_event sample_env (py ''1700000000.000001'')
     [''message_type'' \<mapsto> PStr (py ''user''), ''content'' \<mapsto> PStr (py ''hi'')]
   = process_cli_event sample_env (py ''1700000000.000002'')
     [''message_type'' \<mapsto> PStr (py ''user''), ''content'' \<mapsto> PStr (py ''hi'')]"
  then have "[''type'' \<mapsto> PStr (py ''user''), ''content'' \<mapsto> PStr (py ''hi''),
              ''id'' \<mapsto> PStr (py ''user_'' @ py ''0'' @ py ''_'' @ py ''1700000000.000001'')] ''id''
     = [''type'' \<mapsto> PStr (py ''user''), ''content'' \<mapsto> PStr (py ''hi''),
        ''id'' \<mapsto> PStr (py ''user_'' @ py ''0'' @ py ''_'' @ py ''1700000000.000002'')] ''id''"
    by (simp only: user_event_message sum.inject)
  then show False by simp
qed


section \<open>Agent status\<close>

lemma find_active_agent_find:
  "find_active_agent E evs =
     (case find names_active_agent evs of
        None \<Rightarrow> Inr PNone
      | Some e \<Rightarrow>
          (case dict_get e ''agent_name'' of
             PStr s \<Rightarrow> Inr (PStr (lower E s))
           | _ \<Rightarrow> Inl AttributeError))"
proof (induction evs)
  case Nil
  show ?case by simp
next
  case (Cons e evs)
  show ?case
  proof (cases "names_active_agent e")
    case True
    then show ?thesis
      by (cases "dict_get e ''agent_name''")
         (simp_all add: names_active_agent_def lower_method_def)
  next
    case False
    with Cons.IH show ?thesis
      by (auto simp: names_active_agent_def Let_def)
  qed
qed

text \<open>
  Claim C7, as the code has it. For every event list, \<^verbatim>\<open>extract_agent_status\<close> looks from
  the most recent event to the oldest for the first event with \<^verbatim>\<open>type\<close> equal to
  \<^verbatim>\<open>message\<close> and \<^verbatim>\<open>message_type\<close> equal to \<^verbatim>\<open>ai\<close> whose agent name is non-empty and
  not \<^verbatim>\<open>Unknown\<close>, and stops there: the active agent is the agent name of that event
  in lower case, as \<^verbatim>\<open>str.lower()\<close> gives it, when the name is a string, and the call
  raises \<^verbatim>\<open>AttributeError\<close> when it is not;
  when no event qualifies, the active agent is \<^verbatim>\<open>None\<close>. The list of completed agents is
  empty and the step counts the events of type \<^verbatim>\<open>message\<close>.
\<close>

theorem extract_agent_status_most_recent:
  "extract_agent_status E events =
     (case find names_active_agent (rev events) of
        None \<Rightarrow>
          Inr \<lparr>active_agent = PNone, completed_agents = [],
               current_step =
                 length (filter (\<lambda>e. dict_get e ''type'' = PStr (py ''message'')) events)\<rparr>
      | Some e \<Rightarrow>
          (case dict_get e ''agent_name'' of
             PStr s \<Rightarrow>
               Inr \<lparr>active_agent = PStr (lower E s), completed_agents = [],
                    current_step =
                      length (filter (\<lambda>e. dict_get e ''type'' = PStr (py ''message'')) events)\<rparr>
           | _ \<Rightarrow> Inl AttributeError))"
  by (simp add: extract_agent_status_def find_active_agent_find
           split: option.split pyval.split)

text \<open>Two AI messages and a later tool message: the more recent AI message wins. And a
  name outside ASCII: in \<^verbatim>\<open>R\<close>, U+00C9, \<^verbatim>\<open>CON\<close> the capital E with acute accent becomes
  the small one, U+00E9, and the letters around it become \<^verbatim>\<open>r\<close> and \<^verbatim>\<open>con\<close>. A name
  that is a number raises, and the name \<^verbatim>\<open>Unknown\<close> is passed over.\<close>

lemma lower_exploit_name: "lower sample_env (py ''Exploit'') = py ''exploit''"
proof -
  have "lower sample_env (py ''Exploit'') = py (map lower_char ''Exploit'')"
    by (rule lower_literal) simp
  moreover have "map lower_char ''Exploit'' = ''exploit''"
    by code_simp
  ultimately show ?thesis by (simp only:)
qed

lemma lower_recon_name:
  "lower sample_env ([0x52, 0xC9] @ py ''CON'') = py ''r'' @ [0xE9] @ py ''con''"
  by (simp add: lower_def lower_at_def lower_ascii_def is_space_def sample_env_def
        py_def cp_def)

theorem extract_agent_status_most_recent_witness:
  "extract_agent_status sample_env
     [[''type'' \<mapsto> PStr (py ''message''), ''message_type'' \<mapsto> PStr (py ''ai''),
       ''agent_name'' \<mapsto> PStr (py ''Recon'')],
      [''type'' \<mapsto> PStr (py ''message''), ''message_type'' \<mapsto> PStr (py ''ai''),
       ''agent_name'' \<mapsto> PStr (py ''Exploit'')],
      [''type'' \<mapsto> PStr (py ''message''), ''message_type'' \<mapsto> PStr (py ''tool''),
       ''agent_name'' \<mapsto> PStr (py ''Recon'')]]
   = Inr \<lparr>active_agent = PStr (py ''exploit''), completed_agents = [], current_step = 3\<rparr>
   \<and> extract_agent_status sample_env
       [[''type'' \<mapsto> PStr (py ''message''), ''message_type'' \<mapsto> PStr (py ''ai''),
         ''agent_name'' \<mapsto> PStr ([0x52, 0xC9] @ py ''CON'')]]
     = Inr \<lparr>active_agent = PStr (py ''r'' @ [0xE9] @ py ''con''), completed_agents = [],
            current_step = 1\<rparr>
   \<and> extract_agent_status sample_env
       [[''type'' \<mapsto> PStr (py ''message''), ''message_type'' \<mapsto> PStr (py ''ai''),
         ''agent_name'' \<mapsto> PInt 7]]
     = Inl AttributeError
   \<and> extract_agent_status sample_env
       [[''type'' \<mapsto> PStr (py ''message''), ''message_type'' \<mapsto> PStr (py ''ai''),
         ''agent_name'' \<mapsto> PStr (py ''Unknown'')]]
     = Inr \<lparr>active_agent = PNone, completed_agents = [], current_step = 1\<rparr>"
proof -
  have unknown: "py ''Recon'' \<noteq> py ''Unknown''" "py ''Exploit'' \<noteq> py ''Unknown''"
    "[0x52, 0xC9] @ py ''CON'' \<noteq> py ''Unknown''"
    by (simp_all add: py_def cp_def)
  from extract_agent_status_most_recent
    [of sample_env
        "[[''type'' \<mapsto> PStr (py ''message''), ''message_type'' \<mapsto> PStr (py ''ai''),
           ''agent_name'' \<mapsto> PStr (py ''Recon'')],
          [''type'' \<mapsto> PStr (py ''message''), ''message_type'' \<mapsto> PStr (py ''ai''),
           ''agent_name'' \<mapsto> PStr (py ''Exploit'')],
          [''type'' \<mapsto> PStr (py ''message''), ''message_type'' \<mapsto> PStr (py ''tool''),
           ''agent_name'' \<mapsto> PStr (py ''Recon'')]]"]
  have first: "extract_agent_status sample_env
     [[''type'' \<mapsto> PStr (py ''message''), ''message_type'' \<mapsto> PStr (py ''ai''),
       ''agent_name'' \<mapsto> PStr (py ''Recon'')],
      [''type'' \<mapsto> PStr (py ''message''), ''message_type'' \<mapsto> PStr (py ''ai''),
       ''agent_name'' \<mapsto> PStr (py ''Exploit'')],
      [''type'' \<mapsto> PStr (py ''message''), ''message_type'' \<mapsto> PStr (py ''tool''),
       ''agent_name'' \<mapsto> PStr (py ''Recon'')]]
   = Inr \<lparr>active_agent = PStr (py ''exploit''), completed_agents = [], current_step = 3\<rparr>"
    by (simp add: names_active_agent_def dict_get_def dict_get_default_def lower_exploit_name
          unknown)
  from extract_agent_status_most_recent
    [of sample_env
        "[[''type'' \<mapsto> PStr (py ''message''), ''message_type'' \<mapsto> PStr (py ''ai''),
           ''agent_name'' \<mapsto> PStr ([0x52, 0xC9] @ py ''CON'')]]"]
  have second: "extract_agent_status sample_env
       [[''type'' \<mapsto> PStr (py ''message''), ''message_type'' \<mapsto> PStr (py ''ai''),
         ''agent_name'' \<mapsto> PStr ([0x52, 0xC9] @ py ''CON'')]]
     = Inr \<lparr>active_agent = PStr (py ''r'' @ [0xE9] @ py ''con''), completed_agents = [],
            current_step = 1\<rparr>"
    using lower_recon_name unknown(3)
    by (simp add: names_active_agent_def dict_get_def dict_get_default_def)
  from extract_agent_status_most_recent
    [of sample_env
        "[[''type'' \<mapsto> PStr (py ''message''), ''message_type'' \<mapsto> PStr (py ''ai''),
           ''agent_name'' \<mapsto> PInt 7]]"]
  have third: "extract_agent_status sample_env
       [[''type'' \<mapsto> PStr (py ''message''), ''message_type'' \<mapsto> PStr (py ''ai''),
         ''agent_name'' \<mapsto> PInt 7]]
     = Inl AttributeError"
    by (simp add: names_active_agent_def dict_get_def dict_get_default_def)
  from extract_agent_status_most_recent
    [of sample_env
        "[[''type'' \<mapsto> PStr (py ''message''), ''message_type'' \<mapsto> PStr (py ''ai''),
           ''agent_name'' \<mapsto> PStr (py ''Unknown'')]]"]
  have fourth: "extract_agent_status sample_env
       [[''type'' \<mapsto> PStr (py ''message''), ''message_type'' \<mapsto> PStr (py ''ai''),
         ''agent_name'' \<mapsto> PStr (py ''Unknown'')]]
     = Inr \<lparr>active_agent = PNone, completed_agents = [], current_step = 1\<rparr>"
    by (simp add: names_active_agent_def dict_get_def dict_get_default_def)
  from first second third fourth show ?thesis by (intro conjI)
qed

text \<open>
  Claim C7 as stated fails: an event with message type \<^verbatim>\<open>ai\<close> and the agent name
  \<^verbatim>\<open>Recon\<close>, without the envelope \<^verbatim>\<open>type\<close> of a message, is an event of AI type with a
  non-empty agent name that is not \<^verbatim>\<open>Unknown\<close>, and the code leaves the active agent at
  \<^verbatim>\<open>None\<close>.
\<close>

theorem extract_agent_status_counterexample:
  "spec_names_active_agent
     [''message_type'' \<mapsto> PStr (py ''ai''), ''agent_name'' \<mapsto> PStr (py ''Recon'')]
   \<and> extract_agent_status sample_env
       [[''message_type'' \<mapsto> PStr (py ''ai''), ''agent_name'' \<mapsto> PStr (py ''Recon'')]]
     = Inr \<lparr>active_agent = PNone, completed_agents = [], current_step = 0\<rparr>"
  by (simp add: spec_names_active_agent_def extract_agent_status_def dict_get_def
        dict_get_default_def py_def)

section \<open>Duplicate detection\<close>

lemma id_scan_iff: "id_scan i ms = (\<exists>m\<in>set ms. dict_get m ''id'' = i)"
  by (induction ms) auto

lemma content_scan_iff:
  "content_scan new a c ms =
     (\<exists>m\<in>set ms. dict_get m ''agent_id'' = a
                  \<and> dict_get m ''type'' = dict_get new ''type''
                  \<and> dict_get m ''content'' = c)"
  by (induction ms) auto

text \<open>
  Claim C8, as the code has it. For every candidate message with a non-empty id,
  \<^verbatim>\<open>is_duplicate_message\<close> returns true exactly when the existing list has a message with
  the same id, or a message with the same type, the same agent id and the same content as
  the candidate (an absent content of the candidate counting as the empty string). So it
  returns true when a message with a different id and equal type, agent id and content is
  in the list, and it returns false only when neither check finds a match.
\<close>

theorem is_duplicate_message_with_id:
  assumes "truthy (dict_get new ''id'')"
  shows "is_duplicate_message new existing =
           (\<exists>m\<in>set existing.
              dict_get m ''id'' = dict_get new ''id''
              \<or> (dict_get m ''type'' = dict_get new ''type''
                  \<and> dict_get m ''agent_id'' = dict_get new ''agent_id''
                  \<and> dict_get m ''content'' = dict_get_default new ''content'' (PStr [])))"
  using assms
  by (auto simp: is_duplicate_message_def Let_def id_scan_iff content_scan_iff)

text \<open>Two messages of the same agent with the same content, built at different times.\<close>

theorem is_duplicate_message_with_id_witness:
  "dict_get [''type'' \<mapsto> PStr (py ''ai''), ''agent_id'' \<mapsto> PStr (py ''recon''),
             ''content'' \<mapsto> PStr (py ''scan done''), ''id'' \<mapsto> PStr (py ''ai_recon_7_1700000000.2'')] ''id''
     \<noteq> dict_get [''type'' \<mapsto> PStr (py ''ai''), ''agent_id'' \<mapsto> PStr (py ''recon''),
             ''content'' \<mapsto> PStr (py ''scan done''), ''id'' \<mapsto> PStr (py ''ai_recon_7_1700000000.1'')] ''id''
   \<and> is_duplicate_message
       [''type'' \<mapsto> PStr (py ''ai''), ''agent_id'' \<mapsto> PStr (py ''recon''),
        ''content'' \<mapsto> PStr (py ''scan done''), ''id'' \<mapsto> PStr (py ''ai_recon_7_1700000000.2'')]
       [[''type'' \<mapsto> PStr (py ''ai''), ''agent_id'' \<mapsto> PStr (py ''recon''),
         ''content'' \<mapsto> PStr (py ''scan done''), ''id'' \<mapsto> PStr (py ''ai_recon_7_1700000000.1'')]]"
  using is_duplicate_message_with_id
    [of "[''type'' \<mapsto> PStr (py ''ai''), ''agent_id'' \<mapsto> PStr (py ''recon''),
          ''content'' \<mapsto> PStr (py ''scan done''), ''id'' \<mapsto> PStr (py ''ai_recon_7_1700000000.2'')]"
        "[[''type'' \<mapsto> PStr (py ''ai''), ''agent_id'' \<mapsto> PStr (py ''recon''),
           ''content'' \<mapsto> PStr (py ''scan done''), ''id'' \<mapsto> PStr (py ''ai_recon_7_1700000000.1'')]]"]
  by (simp add: dict_get_def dict_get_default_def)

text \<open>
  Claim C8 as stated fails for a candidate whose id is empty: the list has a message with a
  different id and the same type, agent id and content, and the result is false.
\<close>

theorem is_duplicate_message_counterexample:
  "dict_get [''type'' \<mapsto> PStr (py ''ai''), ''agent_id'' \<mapsto> PStr (py ''recon''),
             ''content'' \<mapsto> PStr (py ''scan done''), ''id'' \<mapsto> PStr (py ''ai_recon_7_1700000000.1'')] ''id''
     \<noteq> dict_get [''type'' \<mapsto> PStr (py ''ai''), ''agent_id'' \<mapsto> PStr (py ''recon''),
                 ''content'' \<mapsto> PStr (py ''scan done''), ''id'' \<mapsto> PStr []] ''id''
   \<and> dict_get [''type'' \<mapsto> PStr (py ''ai''), ''agent_id'' \<mapsto> PStr (py ''recon''),
               ''content'' \<mapsto> PStr (py ''scan done''), ''id'' \<mapsto> PStr (py ''ai_recon_7_1700000000.1'')] ''type''
     = dict_get [''type'' \<mapsto> PStr (py ''ai''), ''agent_id'' \<mapsto> PStr (py ''recon''),
                 ''content'' \<mapsto> PStr (py ''scan done''), ''id'' \<mapsto> PStr []] ''type''
   \<and> dict_get [''type'' \<mapsto> PStr (py ''ai''), ''agent_id'' \<mapsto> PStr (py ''recon''),
               ''content'' \<mapsto> PStr (py ''scan done''), ''id'' \<mapsto> PStr (py ''ai_recon_7_1700000000.1'')] ''agent_id''
     = dict_get [''type'' \<mapsto> PStr (py ''ai''), ''agent_id'' \<mapsto> PStr (py ''recon''),
                 ''content'' \<mapsto> PStr (py ''scan done''), ''id'' \<mapsto> PStr []] ''agent_id''
   \<and> dict_get [''type'' \<mapsto> PStr (py ''ai''), ''agent_id'' \<mapsto> PStr (py ''recon''),
               ''content'' \<mapsto> PStr (py ''scan done''), ''id'' \<mapsto> PStr (py ''ai_recon_7_1700000000.1'')] ''content''
     = dict_get [''type'' \<mapsto> PStr (py ''ai''), ''agent_id'' \<mapsto> PStr (py ''recon''),
                 ''content'' \<mapsto> PStr (py ''scan done''), ''id'' \<mapsto> PStr []] ''content''
   \<and> \<not> is_duplicate_message
         [''type'' \<mapsto> PStr (py ''ai''), ''agent_id'' \<mapsto> PStr (py ''recon''),
          ''content'' \<mapsto> PStr (py ''scan done''), ''id'' \<mapsto> PStr []]
         [[''type'' \<mapsto> PStr (py ''ai''), ''agent_id'' \<mapsto> PStr (py ''recon''),
           ''content'' \<mapsto> PStr (py ''scan done''), ''id'' \<mapsto> PStr (py ''ai_recon_7_1700000000.1'')]]"
  by (simp add: is_duplicate_message_def dict_get_def dict_get_default_def)

text \<open>
  Claim C9. For every message \<open>m\<close> with a non-empty id, \<^verbatim>\<open>is_duplicate_message(m, [m])\<close> is
  true.
\<close>

theorem is_duplicate_message_reflexive:
  assumes "truthy (dict_get m ''id'')"
  shows "is_duplicate_message m [m]"
  using assms by (simp add: is_duplicate_message_def)

theorem is_duplicate_message_reflexive_witness:
  "truthy (dict_get [''type'' \<mapsto> PStr (py ''user''), ''content'' \<mapsto> PStr (py ''hi''),
                     ''id'' \<mapsto> PStr (py ''user_7_1700000000.1'')] ''id'')
   \<and> is_duplicate_message
       [''type'' \<mapsto> PStr (py ''user''), ''content'' \<mapsto> PStr (py ''hi''), ''id'' \<mapsto> PStr (py ''user_7_1700000000.1'')]
       [[''type'' \<mapsto> PStr (py ''user''), ''content'' \<mapsto> PStr (py ''hi''),
         ''id'' \<mapsto> PStr (py ''user_7_1700000000.1'')]]"
  using is_duplicate_message_reflexive
    [of "[''type'' \<mapsto> PStr (py ''user''), ''content'' \<mapsto> PStr (py ''hi''),
          ''id'' \<mapsto> PStr (py ''user_7_1700000000.1'')]"]
  by (simp add: dict_get_def dict_get_default_def)

text \<open>
  Claim C10. For every candidate message whose id is absent, \<^verbatim>\<open>None\<close> or empty,
  \<^verbatim>\<open>is_duplicate_message\<close> returns false for every existing list, also when the list has
  a message with the same type, agent id and content.
\<close>

theorem is_duplicate_message_without_id:
  assumes "new ''id'' = None \<or> new ''id'' = Some PNone \<or> new ''id'' = Some (PStr [])"
  shows "\<not> is_duplicate_message new existing"
  using assms
  by (auto simp: is_duplicate_message_def dict_get_def dict_get_default_def)

text \<open>A candidate without an id, one with the id \<^verbatim>\<open>None\<close> and one with the empty id, each
  against a list that holds the same type and content.\<close>

theorem is_duplicate_message_without_id_witness:
  "\<not> is_duplicate_message
       [''type'' \<mapsto> PStr (py ''user''), ''content'' \<mapsto> PStr (py ''hi'')]
       [[''type'' \<mapsto> PStr (py ''user''), ''content'' \<mapsto> PStr (py ''hi''),
         ''id'' \<mapsto> PStr (py ''user_7_1700000000.1'')]]
   \<and> \<not> is_duplicate_message
       [''type'' \<mapsto> PStr (py ''user''), ''content'' \<mapsto> PStr (py ''hi''), ''id'' \<mapsto> PNone]
       [[''type'' \<mapsto> PStr (py ''user''), ''content'' \<mapsto> PStr (py ''hi''),
         ''id'' \<mapsto> PStr (py ''user_7_1700000000.1'')]]
   \<and> \<not> is_duplicate_message
       [''type'' \<mapsto> PStr (py ''user''), ''content'' \<mapsto> PStr (py ''hi''), ''id'' \<mapsto> PStr []]
       [[''type'' \<mapsto> PStr (py ''user''), ''content'' \<mapsto> PStr (py ''hi''),
         ''id'' \<mapsto> PStr (py ''user_7_1700000000.1'')]]"
  using
    is_duplicate_message_without_id
      [of "[''type'' \<mapsto> PStr (py ''user''), ''content'' \<mapsto> PStr (py ''hi'')]"
          "[[''type'' \<mapsto> PStr (py ''user''), ''content'' \<mapsto> PStr (py ''hi''),
             ''id'' \<mapsto> PStr (py ''user_7_1700000000.1'')]]"]
    is_duplicate_message_without_id
      [of "[''type'' \<mapsto> PStr (py ''user''), ''content'' \<mapsto> PStr (py ''hi''), ''id'' \<mapsto> PNone]"
          "[[''type'' \<mapsto> PStr (py ''user''), ''content'' \<mapsto> PStr (py ''hi''),
             ''id'' \<mapsto> PStr (py ''user_7_1700000000.1'')]]"]
    is_duplicate_message_without_id
      [of "[''type'' \<mapsto> PStr (py ''user''), ''content'' \<mapsto> PStr (py ''hi''), ''id'' \<mapsto> PStr []]"
          "[[''type'' \<mapsto> PStr (py ''user''), ''content'' \<mapsto> PStr (py ''hi''),
             ''id'' \<mapsto> PStr (py ''user_7_1700000000.1'')]]"]
  by simp

end
